theory Spec2Isabelle
  imports Main
begin

section \<open>The graph container of src/data/Graph.js\<close>

text \<open>
  The module keeps nodes and edges as JavaScript objects that refer to each other, and it
  compares them by identity (\<open>===\<close>).  The embedding therefore has an explicit store:
  a node, an edge and a caller's data object are each a reference (a natural number) into
  a heap of objects, and every operation takes the graph and the heap and returns them
  updated.  New objects get the next unused reference.
\<close>

subsection \<open>Values\<close>

text \<open>
  The values an \<open>option\<close> argument can be: \<open>undefined\<close>, \<open>null\<close>, a string, or a data
  object.  Numbers occur only as matrix cells and as the numeric properties the importer
  writes.  A number is a double: \<open>Num n\<close> is the integer \<open>n\<close>, which a double holds exactly
  when its magnitude is at most \<open>2^53\<close>; \<open>NaN\<close> is the result of adding \<open>undefined\<close>; and
  \<open>Inexact\<close> is a double that the integers do not determine (the rounded result of a sum
  beyond \<open>2^53\<close>).
\<close>

datatype jsval = Undefined | Null | Str string | Obj nat

datatype jsnum = Num int | NaN | Inexact

datatype error = TypeError

text \<open>
  A caller's data object: \<open>{name: ..., value: ..., outValue: ..., inValue: ..., weight: ...}\<close>.
  A property that is missing (or holds \<open>undefined\<close>) is \<open>None\<close>.
\<close>

record data_obj =
  d_name :: "string option"
  d_value :: "jsnum option"
  d_outValue :: "jsnum option"
  d_inValue :: "jsnum option"
  d_weight :: "jsnum option"

text \<open>
  A Node as \<open>init\<close> builds it (lines 348-374): \<open>name\<close>, \<open>$option\<close> (here \<open>n_option\<close>),
  \<open>inEdges\<close>, \<open>outEdges\<close>, \<open>edges\<close> (here \<open>n_edges\<close>), and the traversal's mark
  \<open>__visited\<close> (here \<open>visited\<close>; it is only ever tested for truth, so a mark never set
  is \<open>False\<close>).
\<close>

record node_obj =
  name :: string
  n_option :: jsval
  inEdges :: "nat list"
  outEdges :: "nat list"
  n_edges :: "nat list"
  visited :: bool

text \<open>An Edge (lines 408-425): \<open>$option\<close> (here \<open>e_option\<close>), \<open>node1\<close>, \<open>node2\<close>.\<close>

record edge_obj =
  e_option :: jsval
  node1 :: nat
  node2 :: nat

text \<open>
  The Graph (lines 19-47).  The two index objects are maps from property keys; the maps hold
  the objects' own properties.  A read \<open>this._nodesMap[name]\<close> also finds what the object
  inherits from \<open>Object.prototype\<close>: see \<open>nodesMap_get\<close> below.  No inherited key contains
  a \<open>-\<close> and every key of the pair index does, so reads of the pair index find own
  properties only.
\<close>

record graph =
  directed :: bool
  nodes :: "nat list"
  edges :: "nat list"
  nodesMap :: "string \<rightharpoonup> nat"
  edgesMap :: "string \<rightharpoonup> nat"

record heap =
  nodeObjs :: "nat \<Rightarrow> node_obj"
  nextNode :: nat
  edgeObjs :: "nat \<Rightarrow> edge_obj"
  nextEdge :: nat
  dataObjs :: "nat \<Rightarrow> data_obj"
  nextData :: nat

text \<open>
  An argument that the code accepts as a name or as a Node
  (\<open>typeof(n1) == 'string'\<close>); \<open>ArgUndefined\<close> is what reading a node array past its end
  gives.
\<close>

datatype node_arg = ArgName string | ArgNode nat | ArgUndefined

subsection \<open>Primitive operations of the language\<close>

text \<open>Truthiness, as \<open>||\<close> and \<open>!\<close> test it.\<close>

fun truthy :: "jsval \<Rightarrow> bool" where
  "truthy Undefined = False"
| "truthy Null = False"
| "truthy (Str s) = (s \<noteq> [])"
| "truthy (Obj r) = True"

text \<open>
  Reading a property, \<open>v.name\<close> or \<open>v.value\<close>: a TypeError on \<open>undefined\<close> and \<open>null\<close>; a
  string has none of the properties the module reads (\<open>name\<close>, \<open>value\<close>, \<open>outValue\<close>,
  \<open>inValue\<close>, \<open>weight\<close>), so the read gives \<open>undefined\<close> (\<open>None\<close>).
\<close>

fun get_prop :: "jsval \<Rightarrow> (data_obj \<Rightarrow> 'a option) \<Rightarrow> heap \<Rightarrow> error + 'a option" where
  "get_prop Undefined sel h = Inl TypeError"
| "get_prop Null sel h = Inl TypeError"
| "get_prop (Str s) sel h = Inr None"
| "get_prop (Obj r) sel h = Inr (sel (dataObjs h r))"

text \<open>
  Writing a property, \<open>v.value = x\<close>.  The file is in strict mode (\<open>'use strict'\<close>, line 9),
  where creating a property on a string throws a TypeError, as writing one on \<open>undefined\<close> or
  \<open>null\<close> always does.
\<close>

fun set_prop :: "jsval \<Rightarrow> (data_obj \<Rightarrow> data_obj) \<Rightarrow> heap \<Rightarrow> error + heap" where
  "set_prop (Obj r) upd h = Inr (h\<lparr>dataObjs := (dataObjs h)(r := upd (dataObjs h r))\<rparr>)"
| "set_prop Undefined upd h = Inl TypeError"
| "set_prop Null upd h = Inl TypeError"
| "set_prop (Str s) upd h = Inl TypeError"

text \<open>The property key that \<open>this._nodesMap[name]\<close> uses: \<open>undefined\<close> becomes the key "undefined".\<close>

fun prop_key :: "string option \<Rightarrow> string" where
  "prop_key None = ''undefined''"
| "prop_key (Some s) = s"

text \<open>\<open>name || ''\<close> for a name that is a string or \<open>undefined\<close>.\<close>

fun name_or_empty :: "string option \<Rightarrow> string" where
  "name_or_empty None = []"
| "name_or_empty (Some s) = s"

text \<open>\<open>option || null\<close>.\<close>

definition option_or_null :: "jsval \<Rightarrow> jsval" where
  "option_or_null v = (if truthy v then v else Null)"

text \<open>\<open>array[i]\<close>: \<open>undefined\<close> past the end.\<close>

definition nth_opt :: "'a list \<Rightarrow> nat \<Rightarrow> 'a option" where
  "nth_opt xs i = (if i < length xs then Some (xs ! i) else None)"

text \<open>
  Modelled from the spec: \<open>util.indexOf\<close> (zrender/core/util) is not among the sources; the
  spec calls its uses unchecked index lookups.  It is modelled as \<open>Array.prototype.indexOf\<close>:
  the position of the first occurrence, \<open>-1\<close> when there is none.
\<close>

fun indexOf :: "'a list \<Rightarrow> 'a \<Rightarrow> int" where
  "indexOf [] v = - 1"
| "indexOf (x # xs) v =
     (if x = v then 0 else (let r = indexOf xs v in if r < 0 then - 1 else r + 1))"

text \<open>
  \<open>array.splice(start, 1)\<close>: a negative \<open>start\<close> counts from the end, so \<open>splice(-1, 1)\<close>
  removes the last element.
\<close>

definition splice1 :: "'a list \<Rightarrow> int \<Rightarrow> 'a list" where
  "splice1 xs start =
     (let len = int (length xs);
          k = nat (if start < 0 then max (len + start) 0 else min start len)
      in take k xs @ drop (Suc k) xs)"

text \<open>Sequencing of steps that may throw.\<close>

definition ebind :: "error + 'a \<Rightarrow> ('a \<Rightarrow> error + 'b) \<Rightarrow> error + 'b" where
  "ebind m f = (case m of Inl e \<Rightarrow> Inl e | Inr x \<Rightarrow> f x)"

subsection \<open>Construction\<close>

text \<open>\<open>new Graph(directed)\<close>, lines 19-47.\<close>

definition newGraph :: "bool \<Rightarrow> graph" where
  "newGraph d = \<lparr>directed = d, nodes = [], edges = [], nodesMap = Map.empty, edgesMap = Map.empty\<rparr>"

text \<open>
  Modelled from the spec: \<open>Model.extend\<close> (../model/Model) is not among the sources.  By the
  spec's data model a Node is its name, its payload and its three edge lists, and an Edge is
  its payload and its two endpoints: \<open>new Graph.Node(option)\<close> and \<open>new Graph.Edge(option)\<close>
  run the \<open>init\<close> written in this file (lines 348-374 and 422-424) on a fresh object.
\<close>

definition Node_init :: "jsval \<Rightarrow> heap \<Rightarrow> error + node_obj" where
  "Node_init option h =
     ebind (get_prop option d_name h) (\<lambda>nm.
       Inr \<lparr>name = name_or_empty nm,
            n_option = option_or_null option,
            inEdges = [], outEdges = [], n_edges = [], visited = False\<rparr>)"

text \<open>
  The index objects are made by \<open>{}\<close> (lines 41 and 46), so they inherit the properties of
  \<open>Object.prototype\<close>: those of ES5 (15.2.4) and the accessors every browser adds (Annex B
  of ES2015).  The value of each is a function, or for \<open>__proto__\<close> the prototype object
  itself: all are truthy, and none is a Node.
\<close>

definition object_prototype_keys :: "string list" where
  "object_prototype_keys =
     [''constructor'', ''toString'', ''toLocaleString'', ''valueOf'', ''hasOwnProperty'',
      ''isPrototypeOf'', ''propertyIsEnumerable'', ''__proto__'', ''__defineGetter__'',
      ''__defineSetter__'', ''__lookupGetter__'', ''__lookupSetter__'']"

text \<open>
  What a read of the name index gives when it is truthy: a Node, or the value inherited under
  the key.
\<close>

datatype node_value = IsNode nat | IsInherited string

text \<open>
  \<open>this._nodesMap[name]\<close>: the own property if there is one, otherwise the inherited one,
  otherwise \<open>undefined\<close> (\<open>None\<close>).
\<close>

definition nodesMap_get :: "graph \<Rightarrow> string \<Rightarrow> node_value option" where
  "nodesMap_get g k =
     (case nodesMap g k of
        Some n \<Rightarrow> Some (IsNode n)
      | None \<Rightarrow> if k \<in> set object_prototype_keys then Some (IsInherited k) else None)"

text \<open>
  \<open>Graph.prototype.addNode\<close>, lines 66-79.  It has one parameter, \<open>option\<close>.  When the read of
  line 69 is truthy its value is returned, be it a Node or an inherited value.
\<close>

fun addNode :: "jsval \<Rightarrow> graph \<times> heap \<Rightarrow> error + (node_value \<times> graph \<times> heap)" where
  "addNode option (g, h) =
     ebind (get_prop option d_name h) (\<lambda>nm.
       case nodesMap_get g (prop_key nm) of
         Some found \<Rightarrow> Inr (found, g, h)
       | None \<Rightarrow>
           ebind (Node_init option h) (\<lambda>obj.
             let node = nextNode h
             in Inr (IsNode node,
                  g\<lparr>nodes := nodes g @ [node],
                    nodesMap := (nodesMap g)(prop_key nm \<mapsto> node)\<rparr>,
                  h\<lparr>nodeObjs := (nodeObjs h)(node := obj), nextNode := Suc node\<rparr>)))"

text \<open>\<open>Graph.prototype.getNodeByName\<close>, lines 86-88.\<close>

definition getNodeByName :: "string \<Rightarrow> graph \<Rightarrow> node_value option" where
  "getNodeByName nm g = nodesMap_get g nm"

text \<open>
  The first lines of \<open>addEdge\<close>, \<open>removeNode\<close> and \<open>breadthFirstTraverse\<close>: a string is looked
  up in the name index, and a falsy result means "no node".  Here the read is of the own
  properties: these three operations are modelled for Nodes and for strings that are not
  inherited keys of the index (for such a string the code would go on with the inherited
  function in the place of a Node).  The result \<open>Some a\<close> is the code's in every case, an own
  property being found first.
\<close>

fun resolve_node :: "node_arg \<Rightarrow> graph \<Rightarrow> nat option" where
  "resolve_node (ArgName s) g = nodesMap g s"
| "resolve_node (ArgNode n) g = Some n"
| "resolve_node ArgUndefined g = None"

text \<open>The key of the pair index: \<open>n1.name + '-' + n2.name\<close>.\<close>

definition edge_key :: "string \<Rightarrow> string \<Rightarrow> string" where
  "edge_key a b = a @ ''-'' @ b"

text \<open>\<open>array.push(edge)\<close> on one of a node's three arrays.\<close>

definition push_outEdges :: "nat \<Rightarrow> nat \<Rightarrow> heap \<Rightarrow> heap" where
  "push_outEdges n e h =
     h\<lparr>nodeObjs := (nodeObjs h)(n := (nodeObjs h n)\<lparr>outEdges := outEdges (nodeObjs h n) @ [e]\<rparr>)\<rparr>"

definition push_inEdges :: "nat \<Rightarrow> nat \<Rightarrow> heap \<Rightarrow> heap" where
  "push_inEdges n e h =
     h\<lparr>nodeObjs := (nodeObjs h)(n := (nodeObjs h n)\<lparr>inEdges := inEdges (nodeObjs h n) @ [e]\<rparr>)\<rparr>"

definition push_edges :: "nat \<Rightarrow> nat \<Rightarrow> heap \<Rightarrow> heap" where
  "push_edges n e h =
     h\<lparr>nodeObjs := (nodeObjs h)(n := (nodeObjs h n)\<lparr>n_edges := n_edges (nodeObjs h n) @ [e]\<rparr>)\<rparr>"

text \<open>
  \<open>Graph.prototype.addEdge\<close>, lines 97-130.  The result \<open>None\<close> is the bare \<open>return\<close>.
  The new Edge is written once, with the \<open>$option\<close> of its \<open>init\<close> (line 423) and the two
  endpoints assigned right after (lines 114-115).
\<close>

fun addEdge :: "node_arg \<Rightarrow> node_arg \<Rightarrow> jsval \<Rightarrow> graph \<times> heap \<Rightarrow> nat option \<times> graph \<times> heap" where
  "addEdge a1 a2 option (g, h) =
     (case (resolve_node a1 g, resolve_node a2 g) of
        (Some n1, Some n2) \<Rightarrow>
          (let key = edge_key (name (nodeObjs h n1)) (name (nodeObjs h n2)) in
           case edgesMap g key of
             Some e \<Rightarrow> (Some e, g, h)
           | None \<Rightarrow>
               (let edge = nextEdge h;
                    h1 = h\<lparr>edgeObjs := (edgeObjs h)(edge := \<lparr>e_option = option, node1 = n1, node2 = n2\<rparr>),
                           nextEdge := Suc edge\<rparr>;
                    h2 = (if directed g then push_inEdges n2 edge (push_outEdges n1 edge h1) else h1);
                    h3 = push_edges n1 edge h2;
                    h4 = (if n1 \<noteq> n2 then push_edges n2 edge h3 else h3)
                in (Some edge,
                    g\<lparr>edges := edges g @ [edge], edgesMap := (edgesMap g)(key \<mapsto> edge)\<rparr>,
                    h4)))
      | _ \<Rightarrow> (None, g, h))"

text \<open>\<open>Graph.prototype.removeEdge\<close>, lines 136-151.\<close>

definition splice_outEdges :: "nat \<Rightarrow> nat \<Rightarrow> heap \<Rightarrow> heap" where
  "splice_outEdges n e h =
     h\<lparr>nodeObjs := (nodeObjs h)(n := (nodeObjs h n)
        \<lparr>outEdges := splice1 (outEdges (nodeObjs h n)) (indexOf (outEdges (nodeObjs h n)) e)\<rparr>)\<rparr>"

definition splice_inEdges :: "nat \<Rightarrow> nat \<Rightarrow> heap \<Rightarrow> heap" where
  "splice_inEdges n e h =
     h\<lparr>nodeObjs := (nodeObjs h)(n := (nodeObjs h n)
        \<lparr>inEdges := splice1 (inEdges (nodeObjs h n)) (indexOf (inEdges (nodeObjs h n)) e)\<rparr>)\<rparr>"

definition splice_edges :: "nat \<Rightarrow> nat \<Rightarrow> heap \<Rightarrow> heap" where
  "splice_edges n e h =
     h\<lparr>nodeObjs := (nodeObjs h)(n := (nodeObjs h n)
        \<lparr>n_edges := splice1 (n_edges (nodeObjs h n)) (indexOf (n_edges (nodeObjs h n)) e)\<rparr>)\<rparr>"

fun removeEdge :: "nat \<Rightarrow> graph \<times> heap \<Rightarrow> graph \<times> heap" where
  "removeEdge edge (g, h) =
     (let n1 = node1 (edgeObjs h edge);
          n2 = node2 (edgeObjs h edge);
          key = edge_key (name (nodeObjs h n1)) (name (nodeObjs h n2));
          h1 = (if directed g then splice_inEdges n2 edge (splice_outEdges n1 edge h) else h);
          h2 = splice_edges n1 edge h1;
          h3 = (if n1 \<noteq> n2 then splice_edges n2 edge h2 else h2)
      in (g\<lparr>edgesMap := (edgesMap g)(key := None),
            edges := splice1 (edges g) (indexOf (edges g) edge)\<rparr>,
          h3))"

text \<open>
  \<open>Graph.prototype.getEdge\<close>, lines 159-173.  An argument that is not a string is read
  as a Node: \<open>n1.name\<close>, a TypeError on \<open>undefined\<close>.
\<close>

fun arg_name :: "node_arg \<Rightarrow> heap \<Rightarrow> error + string" where
  "arg_name (ArgName s) h = Inr s"
| "arg_name (ArgNode n) h = Inr (name (nodeObjs h n))"
| "arg_name ArgUndefined h = Inl TypeError"

fun getEdge :: "node_arg \<Rightarrow> node_arg \<Rightarrow> graph \<times> heap \<Rightarrow> error + nat option" where
  "getEdge a1 a2 (g, h) =
     ebind (arg_name a1 h) (\<lambda>n1.
     ebind (arg_name a2 h) (\<lambda>n2.
       if directed g then Inr (edgesMap g (edge_key n1 n2))
       else Inr (case edgesMap g (edge_key n1 n2) of
                   Some e \<Rightarrow> Some e
                 | None \<Rightarrow> edgesMap g (edge_key n2 n1))))"

text \<open>Facts about \<open>indexOf\<close> and \<open>splice\<close> that the loops below need in order to terminate.\<close>

lemma indexOf_absent: "v \<notin> set xs \<Longrightarrow> indexOf xs v = - 1"
  by (induction xs) auto

lemma indexOf_nonneg: "v \<in> set xs \<Longrightarrow> 0 \<le> indexOf xs v"
  by (induction xs) (auto simp: Let_def)

lemma splice1_Cons_0: "splice1 (x # xs) 0 = xs"
  by (simp add: splice1_def)

lemma splice1_Cons_Suc: "0 \<le> r \<Longrightarrow> splice1 (x # xs) (r + 1) = x # splice1 xs r"
proof -
  assume r: "0 \<le> r"
  have k: "nat (min (r + 1) (1 + int (length xs))) = Suc (nat (min r (int (length xs))))"
    using r by (cases "r \<le> int (length xs)") (simp_all add: min_def nat_add_distrib)
  show ?thesis
    using r by (simp add: splice1_def Let_def k)
qed

lemma splice1_indexOf: "v \<in> set xs \<Longrightarrow> splice1 xs (indexOf xs v) = remove1 v xs"
proof (induction xs)
  case Nil
  then show ?case by simp
next
  case (Cons x xs)
  show ?case
  proof (cases "x = v")
    case True
    then show ?thesis by (simp add: splice1_Cons_0)
  next
    case False
    with Cons.prems have mem: "v \<in> set xs" by simp
    from indexOf_nonneg [OF mem] have nn: "0 \<le> indexOf xs v" .
    from False nn have "indexOf (x # xs) v = indexOf xs v + 1"
      by (simp add: Let_def)
    with False nn Cons.IH [OF mem] show ?thesis
      by (simp add: splice1_Cons_Suc)
  qed
qed

lemma removeEdge_edges:
  "edges (fst (removeEdge e (g, h))) = splice1 (edges g) (indexOf (edges g) e)"
  by (simp add: Let_def)

lemma removeEdge_shrinks:
  "e \<in> set (edges g) \<Longrightarrow> length (edges (fst (removeEdge e (g, h)))) < length (edges g)"
proof -
  assume e: "e \<in> set (edges g)"
  then have "0 < length (edges g)"
    by (rule length_pos_if_in_set)
  with e show ?thesis
    by (simp only: removeEdge_edges splice1_indexOf) (simp add: length_remove1)
qed

subsection \<open>Removal and filtering of nodes\<close>

text \<open>
  The loop of \<open>removeNode\<close>, lines 190-197: the index stays where it is after a removal.
\<close>

function removeNode_loop :: "nat \<Rightarrow> nat \<Rightarrow> graph \<times> heap \<Rightarrow> graph \<times> heap" where
  "removeNode_loop node i (g, h) =
     (if i < length (edges g) then
        (if node1 (edgeObjs h (edges g ! i)) = node \<or> node2 (edgeObjs h (edges g ! i)) = node
         then removeNode_loop node i (removeEdge (edges g ! i) (g, h))
         else removeNode_loop node (i + 1) (g, h))
      else (g, h))"
  by pat_completeness auto
termination
proof (relation "measure (\<lambda>(node, i, s). length (edges (fst s)) - i)")
  show "wf (measure (\<lambda>(node, i, s). length (edges (fst s)) - i))"
    by simp
next
  fix node i :: nat and g :: graph and h :: heap
  assume i: "i < length (edges g)"
  then have "edges g ! i \<in> set (edges g)"
    by simp
  from removeEdge_shrinks [OF this, of h] i
  show "((node, i, removeEdge (edges g ! i) (g, h)), (node, i, g, h))
          \<in> measure (\<lambda>(node, i, s). length (edges (fst s)) - i)"
    by simp
next
  fix node i :: nat and g :: graph and h :: heap
  assume "i < length (edges g)"
  then show "((node, i + 1, g, h), (node, i, g, h))
          \<in> measure (\<lambda>(node, i, s). length (edges (fst s)) - i)"
    by simp
qed

declare removeNode_loop.simps [simp del]

text \<open>Lines 187-197 of \<open>removeNode\<close>, for a Node.\<close>

definition removeNode_obj :: "nat \<Rightarrow> graph \<times> heap \<Rightarrow> graph \<times> heap" where
  "removeNode_obj node s =
     (case s of (g, h) \<Rightarrow>
        removeNode_loop node 0
          (g\<lparr>nodesMap := (nodesMap g)(name (nodeObjs h node) := None),
             nodes := splice1 (nodes g) (indexOf (nodes g) node)\<rparr>, h))"

text \<open>
  \<open>Graph.prototype.removeNode\<close>, lines 179-198.  A name that resolves to nothing returns at
  once (the read of line 181 is of the own properties, as in \<open>resolve_node\<close>); \<open>undefined\<close> is
  not a string, so \<open>node.name\<close> throws.
\<close>

fun removeNode :: "node_arg \<Rightarrow> graph \<times> heap \<Rightarrow> error + graph \<times> heap" where
  "removeNode (ArgName s) (g, h) =
     (case nodesMap g s of
        None \<Rightarrow> Inr (g, h)
      | Some node \<Rightarrow> Inr (removeNode_obj node (g, h)))"
| "removeNode (ArgNode node) (g, h) = Inr (removeNode_obj node (g, h))"
| "removeNode ArgUndefined (g, h) = Inl TypeError"

text \<open>The value \<open>this.nodes[i]\<close> as an argument of \<open>removeNode\<close>.\<close>

fun arg_of :: "nat option \<Rightarrow> node_arg" where
  "arg_of None = ArgUndefined"
| "arg_of (Some n) = ArgNode n"

text \<open>
  \<open>Graph.prototype.filterNode\<close>, lines 205-215.  The callback is a function of its two
  arguments, the node (\<open>None\<close> for \<open>undefined\<close>) and the index; the list of its invocations is
  returned with the graph.
\<close>

function filterNode_loop ::
  "(nat option \<Rightarrow> nat \<Rightarrow> bool) \<Rightarrow> nat \<Rightarrow> nat \<Rightarrow> (nat option \<times> nat) list \<Rightarrow> graph \<times> heap
    \<Rightarrow> error + ((nat option \<times> nat) list \<times> graph \<times> heap)" where
  "filterNode_loop cb i len calls (g, h) =
     (if i < len then
        (if cb (nth_opt (nodes g) i) i
         then filterNode_loop cb (i + 1) len (calls @ [(nth_opt (nodes g) i, i)]) (g, h)
         else (case removeNode (arg_of (nth_opt (nodes g) i)) (g, h) of
                 Inl e \<Rightarrow> Inl e
               | Inr s \<Rightarrow> filterNode_loop cb i (len - 1) (calls @ [(nth_opt (nodes g) i, i)]) s))
      else Inr (calls, g, h))"
  by pat_completeness auto
termination
  by (relation "measure (\<lambda>(cb, i, len, calls, s). len - i)") auto

declare filterNode_loop.simps [simp del]

definition filterNode ::
  "(nat option \<Rightarrow> nat \<Rightarrow> bool) \<Rightarrow> graph \<times> heap \<Rightarrow> error + ((nat option \<times> nat) list \<times> graph \<times> heap)" where
  "filterNode cb s = filterNode_loop cb 0 (length (nodes (fst s))) [] s"

subsection \<open>Breadth-first traversal\<close>

text \<open>
  \<open>Graph.prototype.breadthFirstTraverse\<close>, lines 280-324.  The callback is a function of its
  two arguments, the node and its predecessor (\<open>None\<close> for \<open>null\<close>); the list of its
  invocations is the result, with the heap that holds the marks.
\<close>

type_synonym visit = "nat \<times> nat option"

text \<open>Lines 290-295 and 308: the array \<open>currentNode[edgeType]\<close>.\<close>

definition edge_list :: "string \<Rightarrow> node_obj \<Rightarrow> nat list" where
  "edge_list direction nd =
     (if direction = ''out'' then outEdges nd
      else if direction = ''in'' then inEdges nd
      else n_edges nd)"

definition set_visited :: "nat \<Rightarrow> bool \<Rightarrow> heap \<Rightarrow> heap" where
  "set_visited n b h = h\<lparr>nodeObjs := (nodeObjs h)(n := (nodeObjs h n)\<lparr>visited := b\<rparr>)\<rparr>"

text \<open>Lines 297-299.\<close>

fun reset_visited :: "nat list \<Rightarrow> heap \<Rightarrow> heap" where
  "reset_visited [] h = h"
| "reset_visited (n # ns) h = reset_visited ns (set_visited n False h)"

text \<open>
  The inner loop, lines 310-322, over the edges of the current node.  The first component of
  the result says that the callback stopped the traversal.
\<close>

fun scan_edges ::
  "(nat \<Rightarrow> nat option \<Rightarrow> bool) \<Rightarrow> nat \<Rightarrow> nat list \<Rightarrow> nat list \<Rightarrow> visit list \<Rightarrow> heap
    \<Rightarrow> bool \<times> nat list \<times> visit list \<times> heap" where
  "scan_edges cb currentNode [] queue calls h = (False, queue, calls, h)"
| "scan_edges cb currentNode (e # es) queue calls h =
     (let otherNode = (if node1 (edgeObjs h e) = currentNode
                       then node2 (edgeObjs h e) else node1 (edgeObjs h e))
      in if \<not> visited (nodeObjs h otherNode) then
           (if cb otherNode (Some currentNode)
            then (True, queue, calls @ [(otherNode, Some currentNode)], h)
            else scan_edges cb currentNode es (queue @ [otherNode])
                   (calls @ [(otherNode, Some currentNode)]) (set_visited otherNode True h))
         else scan_edges cb currentNode es queue calls h)"

text \<open>The queue loop, lines 305-323.  On a heap that is not finite it need not end.\<close>

partial_function (option) bfs_queue ::
  "(nat \<Rightarrow> nat option \<Rightarrow> bool) \<Rightarrow> string \<Rightarrow> nat list \<Rightarrow> visit list \<Rightarrow> heap
    \<Rightarrow> (visit list \<times> heap) option" where
  "bfs_queue cb direction queue calls h =
     (case queue of
        [] \<Rightarrow> Some (calls, h)
      | currentNode # rest \<Rightarrow>
          (case scan_edges cb currentNode (edge_list direction (nodeObjs h currentNode)) rest calls h of
             (stop, queue', calls', h') \<Rightarrow>
               if stop then Some (calls', h') else bfs_queue cb direction queue' calls' h'))"

definition breadthFirstTraverse ::
  "(nat \<Rightarrow> nat option \<Rightarrow> bool) \<Rightarrow> node_arg \<Rightarrow> string \<Rightarrow> graph \<times> heap
    \<Rightarrow> (visit list \<times> heap) option" where
  "breadthFirstTraverse cb startNode direction s =
     (case s of (g, h) \<Rightarrow>
        case resolve_node startNode g of
          None \<Rightarrow> Some ([], h)
        | Some start \<Rightarrow>
            (let h1 = reset_visited (nodes g) h
             in if cb start None then Some ([(start, None)], h1)
                else bfs_queue cb direction [start] [(start, None)] h1))"

subsection \<open>Copying\<close>

text \<open>
  \<open>Graph.prototype.clone\<close>, lines 329-339.  \<open>addNode\<close> is called with the name as its first
  argument, which is the parameter \<open>option\<close>; the second argument has no parameter to land
  in.  An Edge has no property \<open>data\<close>, so \<open>e.data\<close> is \<open>undefined\<close>.
\<close>

fun clone_nodes :: "nat list \<Rightarrow> graph \<times> heap \<Rightarrow> error + graph \<times> heap" where
  "clone_nodes [] s = Inr s"
| "clone_nodes (n # ns) (graph, h) =
     ebind (addNode (Str (name (nodeObjs h n))) (graph, h)) (\<lambda>(node, graph', h').
       clone_nodes ns (graph', h'))"

fun clone_edges :: "nat list \<Rightarrow> graph \<times> heap \<Rightarrow> graph \<times> heap" where
  "clone_edges [] s = s"
| "clone_edges (e # es) (graph, h) =
     (case addEdge (ArgName (name (nodeObjs h (node1 (edgeObjs h e)))))
                   (ArgName (name (nodeObjs h (node2 (edgeObjs h e))))) Undefined (graph, h) of
        (edge, graph', h') \<Rightarrow> clone_edges es (graph', h'))"

definition clone :: "graph \<Rightarrow> heap \<Rightarrow> error + graph \<times> heap" where
  "clone this h =
     ebind (clone_nodes (nodes this) (newGraph (directed this), h)) (\<lambda>s.
       Inr (clone_edges (edges this) s))"

subsection \<open>Import from an adjacency matrix\<close>

text \<open>The object literal \<open>{}\<close>.\<close>

definition empty_obj :: data_obj where
  "empty_obj = \<lparr>d_name = None, d_value = None, d_outValue = None, d_inValue = None, d_weight = None\<rparr>"

definition new_object :: "heap \<Rightarrow> nat \<times> heap" where
  "new_object h =
     (nextData h, h\<lparr>dataObjs := (dataObjs h)(nextData h := empty_obj), nextData := Suc (nextData h)\<rparr>)"

text \<open>A name read from a data object, as a value: a string or \<open>undefined\<close>.\<close>

fun name_value :: "string option \<Rightarrow> jsval" where
  "name_value None = Undefined"
| "name_value (Some s) = Str s"

text \<open>An integer as a double: exact up to \<open>2^53\<close> in magnitude.\<close>

definition num_of_int :: "int \<Rightarrow> jsnum" where
  "num_of_int n = (if \<bar>n\<bar> \<le> 2 ^ 53 then Num n else Inexact)"

text \<open>
  \<open>a + b\<close> on operands that are numbers or \<open>undefined\<close>.  \<open>undefined\<close> and NaN turn the sum
  into NaN.  The sum of two integers that doubles hold is their integer sum when a double
  holds that too; otherwise the sum is rounded, which the integers do not determine.
\<close>

fun js_add :: "jsnum option \<Rightarrow> jsnum option \<Rightarrow> jsnum" where
  "js_add (Some (Num a)) (Some (Num b)) =
     (if \<bar>a\<bar> \<le> 2 ^ 53 \<and> \<bar>b\<bar> \<le> 2 ^ 53 \<and> \<bar>a + b\<bar> \<le> 2 ^ 53 then Num (a + b) else Inexact)"
| "js_add None _ = NaN"
| "js_add _ None = NaN"
| "js_add (Some NaN) _ = NaN"
| "js_add _ (Some NaN) = NaN"
| "js_add (Some Inexact) _ = Inexact"
| "js_add _ (Some Inexact) = Inexact"

text \<open>
  Truthiness of a matrix cell: zero, NaN and \<open>undefined\<close> are falsy.  A cell beyond \<open>2^53\<close> is
  not zero.
\<close>

fun num_truthy :: "jsnum option \<Rightarrow> bool" where
  "num_truthy (Some (Num n)) = (n \<noteq> 0)"
| "num_truthy (Some Inexact) = True"
| "num_truthy (Some NaN) = False"
| "num_truthy None = False"

text \<open>\<open>matrix[i][j]\<close>: \<open>undefined\<close> past the end of a row, a TypeError past the last row.\<close>

definition cell :: "int list list \<Rightarrow> nat \<Rightarrow> nat \<Rightarrow> error + jsnum option" where
  "cell matrix i j =
     (case nth_opt matrix i of
        None \<Rightarrow> Inl TypeError
      | Some row \<Rightarrow> Inr (map_option num_of_int (nth_opt row j)))"

text \<open>\<open>graph.nodes[i].$option\<close>.\<close>

definition node_option_at :: "nat \<Rightarrow> graph \<Rightarrow> heap \<Rightarrow> error + jsval" where
  "node_option_at i g h =
     (case nth_opt (nodes g) i of
        None \<Rightarrow> Inl TypeError
      | Some n \<Rightarrow> Inr (n_option (nodeObjs h n)))"

text \<open>\<open>graph.nodes[i].$option.p += item\<close> for a property \<open>p\<close> given by its selector and update.\<close>

definition accumulate ::
  "(data_obj \<Rightarrow> jsnum option) \<Rightarrow> (jsnum option \<Rightarrow> data_obj \<Rightarrow> data_obj) \<Rightarrow> nat \<Rightarrow> jsnum option
    \<Rightarrow> graph \<Rightarrow> heap \<Rightarrow> error + heap" where
  "accumulate sel upd i item g h =
     ebind (node_option_at i g h) (\<lambda>target.
     ebind (get_prop target sel h) (\<lambda>v.
       set_prop target (upd (Some (js_add v item))) h))"

text \<open>\<open>edge.$option.weight = item\<close> for the result of \<open>addEdge\<close>.\<close>

definition set_weight :: "nat option \<Rightarrow> jsnum option \<Rightarrow> heap \<Rightarrow> error + heap" where
  "set_weight edge item h =
     (case edge of
        None \<Rightarrow> Inl TypeError
      | Some e \<Rightarrow> set_prop (e_option (edgeObjs h e)) (\<lambda>d. d\<lparr>d_weight := item\<rparr>) h)"

text \<open>A counting loop \<open>for (var i = a; i < b; i++)\<close> whose body may throw.\<close>

fun for_each :: "nat list \<Rightarrow> (nat \<Rightarrow> 's \<Rightarrow> error + 's) \<Rightarrow> 's \<Rightarrow> error + 's" where
  "for_each [] body s = Inr s"
| "for_each (i # is) body s = ebind (body i s) (for_each is body)"

text \<open>
  \<open>node.$option\<close> for what \<open>addNode\<close> returned: an inherited value has no property
  \<open>$option\<close>, so the read gives \<open>undefined\<close>.
\<close>

fun option_of :: "node_value \<Rightarrow> heap \<Rightarrow> jsval" where
  "option_of (IsNode n) h = n_option (nodeObjs h n)"
| "option_of (IsInherited k) h = Undefined"

text \<open>The body of the first loop, lines 466-472.\<close>

definition fromMatrix_node :: "jsval list \<Rightarrow> bool \<Rightarrow> nat \<Rightarrow> graph \<times> heap \<Rightarrow> error + graph \<times> heap" where
  "fromMatrix_node nodesData directed_arg i s =
     (case s of (graph, h) \<Rightarrow>
        ebind (case nth_opt nodesData i of
                 None \<Rightarrow> Inl TypeError
               | Some d \<Rightarrow> get_prop d d_name h) (\<lambda>nm.
        ebind (addNode (name_value nm) (graph, h)) (\<lambda>(node, graph1, h1).
        ebind (set_prop (option_of node h1) (\<lambda>d. d\<lparr>d_value := Some (Num 0)\<rparr>) h1) (\<lambda>h2.
          if directed_arg then
            ebind (set_prop (option_of node h2) (\<lambda>d. d\<lparr>d_inValue := Some (Num 0)\<rparr>) h2) (\<lambda>h3.
            ebind (set_prop (option_of node h3) (\<lambda>d. d\<lparr>d_outValue := Some (Num 0)\<rparr>) h3) (\<lambda>h4.
              Inr (graph1, h4)))
          else Inr (graph1, h2)))))"

text \<open>The body of the second loop, lines 476-482.\<close>

definition fromMatrix_sum :: "int list list \<Rightarrow> bool \<Rightarrow> nat \<Rightarrow> nat \<Rightarrow> graph \<times> heap \<Rightarrow> error + graph \<times> heap" where
  "fromMatrix_sum matrix directed_arg i j s =
     (case s of (graph, h) \<Rightarrow>
        ebind (cell matrix i j) (\<lambda>item.
        ebind (if directed_arg then
                 ebind (accumulate d_outValue (\<lambda>v d. d\<lparr>d_outValue := v\<rparr>) i item graph h) (\<lambda>h1.
                   accumulate d_inValue (\<lambda>v d. d\<lparr>d_inValue := v\<rparr>) j item graph h1)
               else Inr h) (\<lambda>h2.
        ebind (accumulate d_value (\<lambda>v d. d\<lparr>d_value := v\<rparr>) i item graph h2) (\<lambda>h3.
        ebind (accumulate d_value (\<lambda>v d. d\<lparr>d_value := v\<rparr>) j item graph h3) (\<lambda>h4.
          Inr (graph, h4))))))"

text \<open>The body of the third loop, lines 488-501.\<close>

definition fromMatrix_edge :: "int list list \<Rightarrow> bool \<Rightarrow> nat \<Rightarrow> nat \<Rightarrow> graph \<times> heap \<Rightarrow> error + graph \<times> heap" where
  "fromMatrix_edge matrix directed_arg i j s =
     (case s of (graph, h) \<Rightarrow>
        ebind (cell matrix i j) (\<lambda>item.
          if item = Some (Num 0) then Inr (graph, h)
          else
            (let n1 = arg_of (nth_opt (nodes graph) i);
                 n2 = arg_of (nth_opt (nodes graph) j)
             in case new_object h of (o1, h1) \<Rightarrow>
                case addEdge n1 n2 (Obj o1) (graph, h1) of (edge, graph2, h2) \<Rightarrow>
                ebind (set_weight edge item h2) (\<lambda>h3.
                  if i \<noteq> j then
                    (if directed_arg then
                       ebind (cell matrix j i) (\<lambda>mirrored.
                         if num_truthy mirrored then
                           (case new_object h3 of (o2, h4) \<Rightarrow>
                            case addEdge n2 n1 (Obj o2) (graph2, h4) of (inEdge, graph5, h5) \<Rightarrow>
                            ebind (set_weight inEdge mirrored h5) (\<lambda>h6. Inr (graph5, h6)))
                         else Inr (graph2, h3))
                     else Inr (graph2, h3))
                  else Inr (graph2, h3)))))"

text \<open>
  \<open>Graph.fromMatrix\<close>, lines 452-506.  A matrix that is \<open>undefined\<close> or \<open>null\<close> is \<open>None\<close>.
  The tests of lines 454-456 are made in their order, as \<open>||\<close> makes them.  The result \<open>None\<close>
  is the bare \<open>return\<close> of line 459.
\<close>

definition fromMatrix ::
  "jsval list \<Rightarrow> int list list option \<Rightarrow> bool \<Rightarrow> heap \<Rightarrow> error + graph option \<times> heap" where
  "fromMatrix nodesData matrix directed_arg h =
     (case matrix of
        None \<Rightarrow> Inr (None, h)
      | Some [] \<Rightarrow> Inr (None, h)
      | Some (row0 # rows) \<Rightarrow>
          if length row0 \<noteq> length (row0 # rows) then Inr (None, h)
          else if length nodesData \<noteq> length (row0 # rows) then Inr (None, h)
          else
            (let m = row0 # rows; size = length m; graph = newGraph directed_arg
             in ebind (for_each [0..<size] (fromMatrix_node nodesData directed_arg) (graph, h)) (\<lambda>s1.
                ebind (for_each [0..<size] (\<lambda>i. for_each [0..<size] (fromMatrix_sum m directed_arg i)) s1) (\<lambda>s2.
                ebind (for_each [0..<size] (\<lambda>i. for_each [i..<size] (fromMatrix_edge m directed_arg i)) s2) (\<lambda>s3.
                  Inr (Some (fst s3), snd s3))))))"

declare bfs_queue.simps [code]

subsection \<open>Vocabulary of the properties\<close>

text \<open>An edge is incident to a node when the node is one of its two endpoints.\<close>

definition incident :: "heap \<Rightarrow> nat \<Rightarrow> nat \<Rightarrow> bool" where
  "incident h node e \<longleftrightarrow> node1 (edgeObjs h e) = node \<or> node2 (edgeObjs h e) = node"

text \<open>
  What every graph built by the operations satisfies: no node occurs twice in \<open>nodes\<close>, and
  every node of the graph is an allocated object.
\<close>

definition graph_ok :: "graph \<Rightarrow> heap \<Rightarrow> bool" where
  "graph_ok g h \<longleftrightarrow> distinct (nodes g) \<and> (\<forall>n \<in> set (nodes g). n < nextNode h)"

text \<open>
  What every graph built by the operations satisfies as well: the nodes in the name index are
  allocated objects, and the pair index holds each edge, an allocated object between
  allocated nodes, under the key made of the names of that edge's own endpoints.
\<close>

definition index_ok :: "graph \<Rightarrow> heap \<Rightarrow> bool" where
  "index_ok g h \<longleftrightarrow>
     (\<forall>k n. nodesMap g k = Some n \<longrightarrow> n < nextNode h) \<and>
     (\<forall>k e. edgesMap g k = Some e \<longrightarrow>
        e < nextEdge h \<and>
        node1 (edgeObjs h e) < nextNode h \<and> node2 (edgeObjs h e) < nextNode h \<and>
        k = edge_key (name (nodeObjs h (node1 (edgeObjs h e))))
                     (name (nodeObjs h (node2 (edgeObjs h e)))))"

subsection \<open>Example graphs\<close>

text \<open>
  The heap before any node or edge exists, holding the caller's data objects at the
  references \<open>0, 1, ...\<close>; \<open>named s\<close> is the object \<open>{name: s}\<close>.
\<close>

definition named :: "string \<Rightarrow> data_obj" where
  "named s = empty_obj\<lparr>d_name := Some s\<rparr>"

definition heap_of :: "data_obj list \<Rightarrow> heap" where
  "heap_of ds =
     \<lparr>nodeObjs = (\<lambda>r. \<lparr>name = [], n_option = Undefined, inEdges = [], outEdges = [],
                        n_edges = [], visited = False\<rparr>),
      nextNode = 0,
      edgeObjs = (\<lambda>r. \<lparr>e_option = Undefined, node1 = 0, node2 = 0\<rparr>),
      nextEdge = 0,
      dataObjs = (\<lambda>r. if r < length ds then ds ! r else empty_obj),
      nextData = length ds\<rparr>"

text \<open>\<open>addNode\<close> on each option in turn, and \<open>addEdge(a, b)\<close> on each pair of names in turn.\<close>

fun add_nodes :: "jsval list \<Rightarrow> graph \<times> heap \<Rightarrow> graph \<times> heap" where
  "add_nodes [] s = s"
| "add_nodes (ov # os) s = (case addNode ov s of Inl e \<Rightarrow> s | Inr (n, s') \<Rightarrow> add_nodes os s')"

fun add_edges :: "(string \<times> string) list \<Rightarrow> graph \<times> heap \<Rightarrow> graph \<times> heap" where
  "add_edges [] s = s"
| "add_edges ((a, b) # es) s = add_edges es (snd (addEdge (ArgName a) (ArgName b) Undefined s))"

text \<open>
  The graph with one node \<open>{name: s}\<close> for each of the names, numbered \<open>0, 1, ...\<close> in that
  order, and one edge for each pair, numbered likewise.
\<close>

definition graph_with :: "bool \<Rightarrow> string list \<Rightarrow> (string \<times> string) list \<Rightarrow> graph \<times> heap" where
  "graph_with d names pairs =
     add_edges pairs
       (add_nodes (map Obj [0..<length names]) (newGraph d, heap_of (map named names)))"

text \<open>The names of the nodes of a graph, in the order of \<open>nodes\<close>.\<close>

definition node_names :: "graph \<times> heap \<Rightarrow> string list" where
  "node_names s = map (\<lambda>n. name (nodeObjs (snd s) n)) (nodes (fst s))"

text \<open>The triples (node1.name, node2.name, payload) of the edges of a graph, in the order of \<open>edges\<close>.\<close>

definition edge_triples :: "graph \<times> heap \<Rightarrow> (string \<times> string \<times> jsval) list" where
  "edge_triples s =
     map (\<lambda>e. (name (nodeObjs (snd s) (node1 (edgeObjs (snd s) e))),
               name (nodeObjs (snd s) (node2 (edgeObjs (snd s) e))),
               e_option (edgeObjs (snd s) e))) (edges (fst s))"

text \<open>The undirected graph with the nodes A, B, C and the edges A-B, B-C, A-C.\<close>

definition triangle :: "graph \<times> heap" where
  "triangle = graph_with False [''A'', ''B'', ''C''] [(''A'', ''B''), (''B'', ''C''), (''A'', ''C'')]"

text \<open>Two nodes A and B without an edge, and the same two nodes with the edge A-B.\<close>

definition two_nodes :: "bool \<Rightarrow> graph \<times> heap" where
  "two_nodes d = graph_with d [''A'', ''B''] []"

definition pair_graph :: "bool \<Rightarrow> graph \<times> heap" where
  "pair_graph d = graph_with d [''A'', ''B''] [(''A'', ''B'')]"

text \<open>Two nodes named \<open>x-x\<close> and \<open>x\<close>: both orders of the pair give the key \<open>x-x-x\<close>.\<close>

definition hyphen_nodes :: "bool \<Rightarrow> graph \<times> heap" where
  "hyphen_nodes d = graph_with d [''x-x'', ''x''] []"

text \<open>Four nodes named \<open>a-b\<close>, \<open>c\<close>, \<open>a\<close>, \<open>b-c\<close>: the pairs (0, 1) and (2, 3) give the key \<open>a-b-c\<close>.\<close>

definition four_nodes :: "graph \<times> heap" where
  "four_nodes = graph_with False [''a-b'', ''c'', ''a'', ''b-c''] []"

section \<open>Properties\<close>

subsection \<open>Frame lemmas\<close>


lemma resolve_node_nodesMap:
  "nodesMap g' = nodesMap g \<Longrightarrow> resolve_node x g' = resolve_node x g"
  by (cases x) simp_all

lemma arg_name_names:
  "\<forall>n. name (nodeObjs h' n) = name (nodeObjs h n) \<Longrightarrow> arg_name x h' = arg_name x h"
  by (cases x) simp_all

lemma addEdge_new:
  assumes "resolve_node x g = Some a" "resolve_node y g = Some b"
    and "edgesMap g (edge_key (name (nodeObjs h a)) (name (nodeObjs h b))) = None"
  shows "\<exists>h'. addEdge x y opt (g, h) =
           (Some (nextEdge h),
            g\<lparr>edges := edges g @ [nextEdge h],
              edgesMap := (edgesMap g)(edge_key (name (nodeObjs h a)) (name (nodeObjs h b)) \<mapsto> nextEdge h)\<rparr>,
            h') \<and> nextEdge h' = Suc (nextEdge h) \<and> (\<forall>n. name (nodeObjs h' n) = name (nodeObjs h n))
            \<and> edgeObjs h' = (edgeObjs h)(nextEdge h := \<lparr>e_option = opt, node1 = a, node2 = b\<rparr>)"
  using assms
  by (simp add: Let_def push_edges_def push_inEdges_def push_outEdges_def)

lemma addEdge_old:
  assumes "resolve_node x g = Some a" "resolve_node y g = Some b"
    and "edgesMap g (edge_key (name (nodeObjs h a)) (name (nodeObjs h b))) = Some e"
  shows "addEdge x y opt (g, h) = (Some e, g, h)"
  using assms by (simp add: Let_def)

lemma addEdge_names:
  "addEdge x y opt (g, h) = (r, g', h') \<Longrightarrow> name (nodeObjs h' n) = name (nodeObjs h n)"
  by (auto simp: Let_def push_edges_def push_inEdges_def push_outEdges_def
           split: option.splits if_splits)

lemma addEdge_frame:
  "addEdge x y opt (g, h) = (r, g', h') \<Longrightarrow>
     nodesMap g' = nodesMap g \<and> directed g' = directed g \<and> nodes g' = nodes g \<and>
     nextNode h' = nextNode h"
  by (auto simp: Let_def push_edges_def push_inEdges_def push_outEdges_def
           split: option.splits if_splits)

lemma addEdge_stored:
  assumes "addEdge x y opt (g, h) = (Some e, g', h')"
    and "resolve_node x g = Some a" and "resolve_node y g = Some b"
  shows "edgesMap g' (edge_key (name (nodeObjs h a)) (name (nodeObjs h b))) = Some e"
  using assms by (auto simp: Let_def split: option.splits)

lemma addEdge_other_key:
  assumes "addEdge x y opt (g, h) = (r, g', h')"
    and "resolve_node x g = Some a" and "resolve_node y g = Some b"
    and "k \<noteq> edge_key (name (nodeObjs h a)) (name (nodeObjs h b))"
  shows "edgesMap g' k = edgesMap g k"
  using assms by (auto simp: Let_def split: option.splits)

lemma removeEdge_frame:
  "removeEdge e (g, h) = (g', h') \<Longrightarrow>
     nodes g' = nodes g \<and> nodesMap g' = nodesMap g \<and> directed g' = directed g \<and>
     edgeObjs h' = edgeObjs h \<and> nextNode h' = nextNode h \<and>
     (\<forall>n. name (nodeObjs h' n) = name (nodeObjs h n))"
  by (auto simp: Let_def splice_edges_def splice_inEdges_def splice_outEdges_def)

lemma incident_cong: "edgeObjs h' = edgeObjs h \<Longrightarrow> incident h' = incident h"
  by (simp add: incident_def fun_eq_iff)

text \<open>
  The pair key separates the two names only when the names have no \<open>-\<close> of their own.
\<close>

lemma edge_key_inj:
  assumes "CHR ''-'' \<notin> set a" and "CHR ''-'' \<notin> set a'"
    and "edge_key a b = edge_key a' b'"
  shows "a = a' \<and> b = b'"
proof -
  have "\<And>a'. CHR ''-'' \<notin> set a \<Longrightarrow> CHR ''-'' \<notin> set a' \<Longrightarrow>
          a @ CHR ''-'' # b = a' @ CHR ''-'' # b' \<Longrightarrow> a = a' \<and> b = b'"
  proof (induction a)
    case Nil
    then show ?case by (cases a') auto
  next
    case (Cons c cs)
    then show ?case by (cases a') auto
  qed
  with assms show ?thesis
    by (simp add: edge_key_def)
qed

subsection \<open>The loop of removeNode\<close>

lemma remove1_nth:
  assumes "i < length xs" and "xs ! i \<notin> set (take i xs)"
  shows "remove1 (xs ! i) xs = take i xs @ drop (Suc i) xs"
proof -
  have "xs = take i xs @ xs ! i # drop (Suc i) xs"
    using assms(1) by (rule id_take_nth_drop)
  then have "remove1 (xs ! i) xs = remove1 (xs ! i) (take i xs @ xs ! i # drop (Suc i) xs)"
    by simp
  also have "\<dots> = take i xs @ drop (Suc i) xs"
    using assms(2) by (simp only: remove1_append) simp
  finally show ?thesis .
qed

text \<open>
  Started at index \<open>i\<close> with no incident edge before \<open>i\<close>, the loop leaves the edges before
  \<open>i\<close> and, of the others, exactly those not incident to the node.
\<close>

lemma removeNode_loop_correct:
  "\<forall>e \<in> set (take i (edges g)). \<not> incident h node e \<Longrightarrow>
   (case removeNode_loop node i (g, h) of (g', h') \<Rightarrow>
      edges g' = take i (edges g) @ filter (\<lambda>e. \<not> incident h node e) (drop i (edges g)) \<and>
      nodes g' = nodes g \<and> nodesMap g' = nodesMap g \<and> directed g' = directed g \<and>
      edgeObjs h' = edgeObjs h \<and> nextNode h' = nextNode h \<and>
      (\<forall>n. name (nodeObjs h' n) = name (nodeObjs h n)))"
proof (induction node i "(g, h)" arbitrary: g h rule: removeNode_loop.induct)
  case (1 node i g h)
  let ?es = "edges g"
  show ?case
  proof (cases "i < length ?es")
    case False
    then show ?thesis
      by (simp add: removeNode_loop.simps)
  next
    case True
    note i = True
    have split_es: "drop i ?es = ?es ! i # drop (Suc i) ?es"
      using i by (simp add: Cons_nth_drop_Suc)
    show ?thesis
    proof (cases "incident h node (?es ! i)")
      case True
      obtain g1 h1 where rm: "removeEdge (?es ! i) (g, h) = (g1, h1)"
        by (cases "removeEdge (?es ! i) (g, h)")
      have notin: "?es ! i \<notin> set (take i ?es)"
        using True "1.prems" by blast
      have mem: "?es ! i \<in> set ?es"
        using i by simp
      have "edges g1 = splice1 ?es (indexOf ?es (?es ! i))"
        using removeEdge_edges [of "?es ! i" g h] rm by simp
      then have es1: "edges g1 = take i ?es @ drop (Suc i) ?es"
        using splice1_indexOf [OF mem] remove1_nth [OF i notin] by simp
      from removeEdge_frame [OF rm] have fr: "nodes g1 = nodes g" "nodesMap g1 = nodesMap g"
        "directed g1 = directed g" "edgeObjs h1 = edgeObjs h" "nextNode h1 = nextNode h"
        "\<forall>n. name (nodeObjs h1 n) = name (nodeObjs h n)"
        by simp_all
      have inc: "incident h1 = incident h"
        using fr(4) by (rule incident_cong)
      have len: "i \<le> length ?es" using i by simp
      have take1: "take i (edges g1) = take i ?es" and drop1: "drop i (edges g1) = drop (Suc i) ?es"
        using len by (simp_all add: es1)
      have pre: "\<forall>e \<in> set (take i (edges g1)). \<not> incident h1 node e"
        using "1.prems" by (simp add: take1 inc)
      have cond: "node1 (edgeObjs h (?es ! i)) = node \<or> node2 (edgeObjs h (?es ! i)) = node"
        using True by (simp add: incident_def)
      from "1.hyps"(1) [OF i cond rm pre]
      have ih: "case removeNode_loop node i (g1, h1) of (g', h') \<Rightarrow>
          edges g' = take i (edges g1) @ filter (\<lambda>e. \<not> incident h1 node e) (drop i (edges g1)) \<and>
          nodes g' = nodes g1 \<and> nodesMap g' = nodesMap g1 \<and> directed g' = directed g1 \<and>
          edgeObjs h' = edgeObjs h1 \<and> nextNode h' = nextNode h1 \<and>
          (\<forall>n. name (nodeObjs h' n) = name (nodeObjs h1 n))" .
      have step: "removeNode_loop node i (g, h) = removeNode_loop node i (g1, h1)"
        using i cond rm by (subst removeNode_loop.simps) simp
      show ?thesis
        using ih True by (simp add: step take1 drop1 inc fr split_es split: prod.splits)
    next
      case False
      have cond: "\<not> (node1 (edgeObjs h (?es ! i)) = node \<or> node2 (edgeObjs h (?es ! i)) = node)"
        using False by (simp add: incident_def)
      have pre: "\<forall>e \<in> set (take (i + 1) ?es). \<not> incident h node e"
        using "1.prems" False i by (simp add: take_Suc_conv_app_nth)
      from "1.hyps"(2) [OF i cond pre]
      have ih: "case removeNode_loop node (i + 1) (g, h) of (g', h') \<Rightarrow>
          edges g' = take (i + 1) ?es @ filter (\<lambda>e. \<not> incident h node e) (drop (i + 1) ?es) \<and>
          nodes g' = nodes g \<and> nodesMap g' = nodesMap g \<and> directed g' = directed g \<and>
          edgeObjs h' = edgeObjs h \<and> nextNode h' = nextNode h \<and>
          (\<forall>n. name (nodeObjs h' n) = name (nodeObjs h n))" .
      have step: "removeNode_loop node i (g, h) = removeNode_loop node (i + 1) (g, h)"
        using i cond by (subst removeNode_loop.simps) simp
      show ?thesis
        using ih False i by (simp add: step split_es take_Suc_conv_app_nth split: prod.splits)
    qed
  qed
qed

lemma removeNode_obj_any:
  "case removeNode_obj node (g, h) of (g', h') \<Rightarrow>
      nodes g' = splice1 (nodes g) (indexOf (nodes g) node) \<and>
      nodesMap g' = (nodesMap g)(name (nodeObjs h node) := None) \<and>
      edges g' = filter (\<lambda>e. \<not> incident h node e) (edges g) \<and>
      directed g' = directed g \<and> edgeObjs h' = edgeObjs h \<and> nextNode h' = nextNode h \<and>
      (\<forall>n. name (nodeObjs h' n) = name (nodeObjs h n))"
proof -
  let ?g0 = "g\<lparr>nodesMap := (nodesMap g)(name (nodeObjs h node) := None),
               nodes := splice1 (nodes g) (indexOf (nodes g) node)\<rparr>"
  have "\<forall>e \<in> set (take 0 (edges ?g0)). \<not> incident h node e"
    by simp
  from removeNode_loop_correct [OF this]
  show ?thesis
    by (simp add: removeNode_obj_def split: prod.splits)
qed

lemma removeNode_obj_correct:
  assumes live: "node \<in> set (nodes g)"
  shows "case removeNode_obj node (g, h) of (g', h') \<Rightarrow>
      nodes g' = remove1 node (nodes g) \<and>
      nodesMap g' = (nodesMap g)(name (nodeObjs h node) := None) \<and>
      edges g' = filter (\<lambda>e. \<not> incident h node e) (edges g) \<and>
      directed g' = directed g \<and> edgeObjs h' = edgeObjs h \<and> nextNode h' = nextNode h \<and>
      (\<forall>n. name (nodeObjs h' n) = name (nodeObjs h n))"
  using removeNode_obj_any [where node = node and g = g and h = h] splice1_indexOf [OF live]
  by (simp split: prod.splits)

subsection \<open>The loop of filterNode\<close>

text \<open>
  Started at index \<open>i\<close> with \<open>len\<close> the number of nodes, for a callback that answers \<open>p\<close> on
  the node alone: the nodes before \<open>i\<close> stay, of the others exactly those with \<open>p\<close> stay, the
  callback is invoked once on each node from \<open>i\<close> on, and the edges that go are those incident
  to a node that goes.
\<close>

lemma filterNode_loop_correct:
  "\<forall>n i. cb (Some n) i = p n \<Longrightarrow>
     distinct (nodes g) \<Longrightarrow> len = length (nodes g) \<Longrightarrow> i \<le> len \<Longrightarrow>
     \<exists>calls' g' h'. filterNode_loop cb i len calls (g, h) = Inr (calls', g', h') \<and>
        nodes g' = take i (nodes g) @ filter p (drop i (nodes g)) \<and>
        map fst calls' = map fst calls @ map Some (drop i (nodes g)) \<and>
        edges g' = filter (\<lambda>e. \<forall>m \<in> set (drop i (nodes g)). \<not> p m \<longrightarrow> \<not> incident h m e) (edges g) \<and>
        edgeObjs h' = edgeObjs h"
proof (induction cb i len calls "(g, h)" arbitrary: g h rule: filterNode_loop.induct)
  case (1 cb i len calls g h)
  note cb = "1.prems"(1)
  note dist = "1.prems"(2)
  note len = "1.prems"(3)
  let ?ns = "nodes g"
  show ?case
  proof (cases "i < len")
    case False
    with "1.prems" show ?thesis
      by (simp add: filterNode_loop.simps)
  next
    case True
    then have i: "i < length ?ns"
      using len by simp
    have at: "nth_opt ?ns i = Some (?ns ! i)"
      using i by (simp add: nth_opt_def)
    have split_ns: "drop i ?ns = ?ns ! i # drop (Suc i) ?ns"
      using i by (simp add: Cons_nth_drop_Suc)
    show ?thesis
    proof (cases "p (?ns ! i)")
      case True
      then have keep: "cb (nth_opt ?ns i) i"
        by (simp add: at cb)
      have "i + 1 \<le> len"
        using \<open>i < len\<close> by simp
      from "1.hyps"(1) [OF \<open>i < len\<close> keep cb dist len this]
      obtain calls' g' h' where
        run: "filterNode_loop cb (i + 1) len (calls @ [(nth_opt ?ns i, i)]) (g, h) = Inr (calls', g', h')"
        and ns': "nodes g' = take (i + 1) ?ns @ filter p (drop (i + 1) ?ns)"
        and cs': "map fst calls' = map fst (calls @ [(nth_opt ?ns i, i)]) @ map Some (drop (i + 1) ?ns)"
        and es': "edges g' = filter (\<lambda>e. \<forall>m \<in> set (drop (i + 1) ?ns). \<not> p m \<longrightarrow> \<not> incident h m e) (edges g)"
        and objs: "edgeObjs h' = edgeObjs h"
        by blast
      have step: "filterNode_loop cb i len calls (g, h) = Inr (calls', g', h')"
        using \<open>i < len\<close> keep run by (subst filterNode_loop.simps) simp
      show ?thesis
        using True i ns' cs' es' objs
        by (simp add: step split_ns at take_Suc_conv_app_nth)
    next
      case False
      then have drop_it: "\<not> cb (nth_opt ?ns i) i"
        by (simp add: at cb)
      obtain g1 h1 where r: "removeNode_obj (?ns ! i) (g, h) = (g1, h1)"
        by (cases "removeNode_obj (?ns ! i) (g, h)")
      have rm: "removeNode (arg_of (nth_opt ?ns i)) (g, h) = Inr (g1, h1)"
        using r by (simp add: at)
      have mem: "?ns ! i \<in> set ?ns"
        using i by simp
      from removeNode_obj_correct [OF mem, of h] r
      have nodes1: "nodes g1 = remove1 (?ns ! i) ?ns"
        and edges1: "edges g1 = filter (\<lambda>e. \<not> incident h (?ns ! i) e) (edges g)"
        and objs1: "edgeObjs h1 = edgeObjs h"
        by simp_all
      have notin: "?ns ! i \<notin> set (take i ?ns)"
        using dist i by (metis distinct_take id_take_nth_drop distinct_append
            not_distinct_conv_prefix append_Cons)
      have ns1: "nodes g1 = take i ?ns @ drop (Suc i) ?ns"
        using remove1_nth [OF i notin] by (simp add: nodes1)
      have d1: "distinct (nodes g1)"
        using dist by (simp add: nodes1)
      have l1: "len - 1 = length (nodes g1)"
        using len i by (simp add: ns1)
      have i1: "i \<le> len - 1"
        using \<open>i < len\<close> by simp
      from "1.hyps"(2) [OF \<open>i < len\<close> drop_it rm cb d1 l1 i1]
      obtain calls' g' h' where
        run: "filterNode_loop cb i (len - 1) (calls @ [(nth_opt ?ns i, i)]) (g1, h1) = Inr (calls', g', h')"
        and ns': "nodes g' = take i (nodes g1) @ filter p (drop i (nodes g1))"
        and cs': "map fst calls' = map fst (calls @ [(nth_opt ?ns i, i)]) @ map Some (drop i (nodes g1))"
        and es': "edges g' = filter (\<lambda>e. \<forall>m \<in> set (drop i (nodes g1)). \<not> p m \<longrightarrow> \<not> incident h1 m e) (edges g1)"
        and objs: "edgeObjs h' = edgeObjs h1"
        by blast
      have step: "filterNode_loop cb i len calls (g, h) = Inr (calls', g', h')"
        using \<open>i < len\<close> drop_it rm run by (subst filterNode_loop.simps) simp
      have le: "i \<le> length ?ns" using i by simp
      have take1: "take i (nodes g1) = take i ?ns" and drop1: "drop i (nodes g1) = drop (Suc i) ?ns"
        using le by (simp_all add: ns1)
      have inc: "incident h1 = incident h"
        using objs1 by (rule incident_cong)
      have "edges g' = filter (\<lambda>e. \<forall>m \<in> set (drop i ?ns). \<not> p m \<longrightarrow> \<not> incident h m e) (edges g)"
        using False by (auto simp: es' edges1 drop1 inc split_ns intro: filter_cong)
      then show ?thesis
        using False ns' cs' objs objs1
        by (simp add: step take1 drop1 split_ns at)
    qed
  qed
qed

subsection \<open>The invariant of the node list\<close>

text \<open>
  \<open>graph_ok\<close> holds of a new graph and is kept by every operation that changes
  a graph, so the node list of a graph built by the module never holds a node twice.
\<close>

lemma splice1_distinct: "distinct xs \<Longrightarrow> distinct (splice1 xs k)"
  by (simp add: splice1_def Let_def set_take_disj_set_drop_if_distinct)

lemma splice1_subset: "set (splice1 xs k) \<subseteq> set xs"
proof -
  have "set (take n xs) \<subseteq> set xs" and "set (drop (Suc n) xs) \<subseteq> set xs" for n
    by (rule set_take_subset, rule set_drop_subset)
  then show ?thesis
    by (simp add: splice1_def Let_def)
qed

lemma graph_ok_newGraph: "graph_ok (newGraph d) h"
  by (simp add: graph_ok_def newGraph_def)

lemma graph_ok_addNode:
  assumes ok: "graph_ok g h" and add: "addNode option (g, h) = Inr (v, g', h')"
  shows "graph_ok g' h'"
proof -
  from add obtain nm where nm: "get_prop option d_name h = Inr nm"
    by (cases "get_prop option d_name h") (simp_all add: ebind_def)
  show ?thesis
  proof (cases "nodesMap_get g (prop_key nm)")
    case (Some found)
    with add nm ok show ?thesis
      by (simp add: ebind_def)
  next
    case None
    with add nm obtain obj where obj: "Node_init option h = Inr obj"
      by (cases "Node_init option h") (simp_all add: ebind_def)
    have "addNode option (g, h) =
        Inr (IsNode (nextNode h),
             g\<lparr>nodes := nodes g @ [nextNode h], nodesMap := (nodesMap g)(prop_key nm \<mapsto> nextNode h)\<rparr>,
             h\<lparr>nodeObjs := (nodeObjs h)(nextNode h := obj), nextNode := Suc (nextNode h)\<rparr>)"
      using nm None obj by (simp add: ebind_def Let_def)
    from trans [OF add [symmetric] this]
    have g': "g' = g\<lparr>nodes := nodes g @ [nextNode h], nodesMap := (nodesMap g)(prop_key nm \<mapsto> nextNode h)\<rparr>"
      and h': "h' = h\<lparr>nodeObjs := (nodeObjs h)(nextNode h := obj), nextNode := Suc (nextNode h)\<rparr>"
      by (simp_all only: sum.inject prod.inject)
    from ok show ?thesis
      by (auto simp: graph_ok_def g' h')
  qed
qed

lemma graph_ok_addEdge:
  "graph_ok g h \<Longrightarrow> addEdge x y option (g, h) = (r, g', h') \<Longrightarrow> graph_ok g' h'"
  using addEdge_frame [of x y option g h r g' h'] by (simp add: graph_ok_def)

lemma graph_ok_removeEdge:
  "graph_ok g h \<Longrightarrow> removeEdge e (g, h) = (g', h') \<Longrightarrow> graph_ok g' h'"
  using removeEdge_frame [of e g h g' h'] by (simp add: graph_ok_def)

lemma graph_ok_removeNode_obj:
  assumes ok: "graph_ok g h" and rm: "removeNode_obj node (g, h) = (g', h')"
  shows "graph_ok g' h'"
proof -
  from removeNode_obj_any [where node = node and g = g and h = h] rm
  have ns: "nodes g' = splice1 (nodes g) (indexOf (nodes g) node)"
    and nx: "nextNode h' = nextNode h"
    by simp_all
  from ok splice1_subset [of "nodes g" "indexOf (nodes g) node"] show ?thesis
    by (auto simp: graph_ok_def ns nx splice1_distinct)
qed

lemma graph_ok_removeNode:
  "graph_ok g h \<Longrightarrow> removeNode x (g, h) = Inr (g', h') \<Longrightarrow> graph_ok g' h'"
  by (cases x) (auto split: option.splits intro: graph_ok_removeNode_obj)

subsection \<open>The invariant of the pair index\<close>

text \<open>
  \<open>index_ok\<close> holds of a new graph and is kept by every operation that changes a graph
  (\<open>addEdge\<close> for names and for allocated Nodes), hence by the example graphs.
\<close>

lemma index_ok_newGraph: "index_ok (newGraph d) h"
  by (simp add: index_ok_def newGraph_def)

lemma index_ok_addNode:
  assumes ok: "index_ok g h" and add: "addNode option (g, h) = Inr (v, g', h')"
  shows "index_ok g' h'"
proof -
  from add obtain nm where nm: "get_prop option d_name h = Inr nm"
    by (cases "get_prop option d_name h") (simp_all add: ebind_def)
  show ?thesis
  proof (cases "nodesMap_get g (prop_key nm)")
    case (Some found)
    with add nm ok show ?thesis
      by (simp add: ebind_def)
  next
    case None
    with add nm obtain obj where obj: "Node_init option h = Inr obj"
      by (cases "Node_init option h") (simp_all add: ebind_def)
    have "addNode option (g, h) =
        Inr (IsNode (nextNode h),
             g\<lparr>nodes := nodes g @ [nextNode h], nodesMap := (nodesMap g)(prop_key nm \<mapsto> nextNode h)\<rparr>,
             h\<lparr>nodeObjs := (nodeObjs h)(nextNode h := obj), nextNode := Suc (nextNode h)\<rparr>)"
      using nm None obj by (simp add: ebind_def Let_def)
    from trans [OF add [symmetric] this]
    have g': "g' = g\<lparr>nodes := nodes g @ [nextNode h], nodesMap := (nodesMap g)(prop_key nm \<mapsto> nextNode h)\<rparr>"
      and h': "h' = h\<lparr>nodeObjs := (nodeObjs h)(nextNode h := obj), nextNode := Suc (nextNode h)\<rparr>"
      by (simp_all only: sum.inject prod.inject)
    have nodes_ok: "n < nextNode h'" if "nodesMap g' k = Some n" for k n
      using that ok by (auto simp: index_ok_def g' h' less_Suc_eq split: if_splits)
    have edges_ok: "e < nextEdge h' \<and>
        node1 (edgeObjs h' e) < nextNode h' \<and> node2 (edgeObjs h' e) < nextNode h' \<and>
        k = edge_key (name (nodeObjs h' (node1 (edgeObjs h' e))))
                     (name (nodeObjs h' (node2 (edgeObjs h' e))))"
      if "edgesMap g' k = Some e" for k e
    proof -
      from that have "edgesMap g k = Some e"
        by (simp add: g')
      with ok have old: "e < nextEdge h" "node1 (edgeObjs h e) < nextNode h"
        "node2 (edgeObjs h e) < nextNode h"
        "k = edge_key (name (nodeObjs h (node1 (edgeObjs h e))))
                      (name (nodeObjs h (node2 (edgeObjs h e))))"
        by (simp_all add: index_ok_def)
      then show ?thesis
        by (simp add: h')
    qed
    from nodes_ok edges_ok show ?thesis
      unfolding index_ok_def by blast
  qed
qed

lemma index_ok_addEdge:
  assumes ok: "index_ok g h"
    and ax: "\<And>a. resolve_node x g = Some a \<Longrightarrow> a < nextNode h"
    and ay: "\<And>b. resolve_node y g = Some b \<Longrightarrow> b < nextNode h"
    and add: "addEdge x y option (g, h) = (r, g', h')"
  shows "index_ok g' h'"
proof (cases "resolve_node x g")
  case None
  with add ok show ?thesis by simp
next
  case (Some a)
  note rx = Some
  show ?thesis
  proof (cases "resolve_node y g")
    case None
    with add ok rx show ?thesis by simp
  next
    case (Some b)
    note ry = Some
    let ?k = "edge_key (name (nodeObjs h a)) (name (nodeObjs h b))"
    show ?thesis
    proof (cases "edgesMap g ?k")
      case (Some e)
      from addEdge_old [OF rx ry Some, of option] add ok show ?thesis
        by simp
    next
      case None
      from addEdge_new [OF rx ry None, of option] add obtain
        g': "g' = g\<lparr>edges := edges g @ [nextEdge h], edgesMap := (edgesMap g)(?k \<mapsto> nextEdge h)\<rparr>"
        and nx: "nextEdge h' = Suc (nextEdge h)"
        and names: "\<forall>n. name (nodeObjs h' n) = name (nodeObjs h n)"
        and objs: "edgeObjs h' = (edgeObjs h)(nextEdge h := \<lparr>e_option = option, node1 = a, node2 = b\<rparr>)"
        by auto
      from addEdge_frame [OF add] have nn: "nextNode h' = nextNode h"
        by simp
      have nodes_ok: "n < nextNode h'" if "nodesMap g' k = Some n" for k n
        using that ok by (simp add: index_ok_def g' nn)
      have edges_ok: "e < nextEdge h' \<and>
          node1 (edgeObjs h' e) < nextNode h' \<and> node2 (edgeObjs h' e) < nextNode h' \<and>
          k = edge_key (name (nodeObjs h' (node1 (edgeObjs h' e))))
                       (name (nodeObjs h' (node2 (edgeObjs h' e))))"
        if stored: "edgesMap g' k = Some e" for k e
      proof (cases "k = ?k")
        case True
        with stored have "e = nextEdge h"
          by (simp add: g')
        with True ax [OF rx] ay [OF ry] show ?thesis
          by (simp add: nx names objs nn)
      next
        case False
        with stored have "edgesMap g k = Some e"
          by (simp add: g')
        with ok have old: "e < nextEdge h" "node1 (edgeObjs h e) < nextNode h"
          "node2 (edgeObjs h e) < nextNode h"
          "k = edge_key (name (nodeObjs h (node1 (edgeObjs h e))))
                        (name (nodeObjs h (node2 (edgeObjs h e))))"
          by (simp_all add: index_ok_def)
        then show ?thesis
          by (simp add: nx names objs nn)
      qed
      from nodes_ok edges_ok show ?thesis
        unfolding index_ok_def by blast
    qed
  qed
qed

lemma index_ok_removeEdge:
  assumes ok: "index_ok g h" and rm: "removeEdge e (g, h) = (g', h')"
  shows "index_ok g' h'"
proof -
  from removeEdge_frame [OF rm] have fr: "nodesMap g' = nodesMap g" "edgeObjs h' = edgeObjs h"
    "nextNode h' = nextNode h" "\<forall>n. name (nodeObjs h' n) = name (nodeObjs h n)"
    by simp_all
  from rm have nx: "nextEdge h' = nextEdge h"
    by (auto simp: Let_def splice_edges_def splice_inEdges_def splice_outEdges_def)
  from rm have sub: "edgesMap g' k = Some x \<Longrightarrow> edgesMap g k = Some x" for k x
    by (auto simp: Let_def split: if_splits)
  have nodes_ok: "n < nextNode h'" if "nodesMap g' k = Some n" for k n
    using that ok by (simp add: index_ok_def fr)
  have edges_ok: "x < nextEdge h' \<and>
      node1 (edgeObjs h' x) < nextNode h' \<and> node2 (edgeObjs h' x) < nextNode h' \<and>
      k = edge_key (name (nodeObjs h' (node1 (edgeObjs h' x))))
                   (name (nodeObjs h' (node2 (edgeObjs h' x))))"
    if "edgesMap g' k = Some x" for k x
    using sub [OF that] ok by (simp add: index_ok_def fr nx)
  from nodes_ok edges_ok show ?thesis
    unfolding index_ok_def by blast
qed


lemma index_ok_removeNode_loop:
  "index_ok g h \<Longrightarrow>
   index_ok (fst (removeNode_loop node i (g, h))) (snd (removeNode_loop node i (g, h)))"
proof (induction node i "(g, h)" arbitrary: g h rule: removeNode_loop.induct)
  case (1 node i g h)
  show ?case
  proof (cases "i < length (edges g)")
    case False
    with "1.prems" show ?thesis
      by (simp add: removeNode_loop.simps)
  next
    case True
    note i = True
    show ?thesis
    proof (cases "node1 (edgeObjs h (edges g ! i)) = node \<or> node2 (edgeObjs h (edges g ! i)) = node")
      case True
      obtain g1 h1 where rm: "removeEdge (edges g ! i) (g, h) = (g1, h1)"
        by (cases "removeEdge (edges g ! i) (g, h)")
      from index_ok_removeEdge [OF "1.prems" rm] have ok1: "index_ok g1 h1" .
      have step: "removeNode_loop node i (g, h) = removeNode_loop node i (g1, h1)"
        using i True rm by (subst removeNode_loop.simps) simp
      from "1.hyps"(1) [OF i True rm ok1] show ?thesis
        by (simp only: step)
    next
      case False
      have step: "removeNode_loop node i (g, h) = removeNode_loop node (i + 1) (g, h)"
        using i False by (subst removeNode_loop.simps) simp
      from "1.hyps"(2) [OF i False "1.prems"] show ?thesis
        by (simp only: step)
    qed
  qed
qed

lemma index_ok_removeNode:
  assumes ok: "index_ok g h" and rm: "removeNode x (g, h) = Inr (g', h')"
  shows "index_ok g' h'"
proof -
  have start: "index_ok (g\<lparr>nodesMap := (nodesMap g)(k := None), nodes := ns\<rparr>) h" for k ns
    using ok by (auto simp: index_ok_def split: if_splits)
  have obj: "index_ok (fst (removeNode_obj node (g, h))) (snd (removeNode_obj node (g, h)))" for node
    using index_ok_removeNode_loop [OF start] by (simp add: removeNode_obj_def)
  show ?thesis
  proof (cases x)
    case (ArgName s)
    with rm ok obj [of "the (nodesMap g s)"] show ?thesis
      by (cases "nodesMap g s") auto
  next
    case (ArgNode node)
    with rm obj [of node] show ?thesis
      by auto
  next
    case ArgUndefined
    with rm show ?thesis by simp
  qed
qed

lemma index_ok_add_nodes:
  "index_ok (fst s) (snd s) \<Longrightarrow> index_ok (fst (add_nodes os s)) (snd (add_nodes os s))"
proof (induction os arbitrary: s)
  case Nil
  then show ?case by simp
next
  case (Cons ov os)
  show ?case
  proof (cases "addNode ov s")
    case (Inl e)
    with Cons.prems show ?thesis by simp
  next
    case (Inr r)
    obtain v g' h' where r: "r = (v, g', h')"
      by (cases r)
    from Inr r have add: "addNode ov (fst s, snd s) = Inr (v, g', h')"
      by simp
    from index_ok_addNode [OF Cons.prems add] have "index_ok (fst (g', h')) (snd (g', h'))"
      by simp
    from Cons.IH [OF this] Inr r show ?thesis
      by simp
  qed
qed

lemma index_ok_add_edges:
  "index_ok (fst s) (snd s) \<Longrightarrow> index_ok (fst (add_edges ps s)) (snd (add_edges ps s))"
proof (induction ps arbitrary: s)
  case Nil
  then show ?case by simp
next
  case (Cons p ps)
  obtain a b where p: "p = (a, b)"
    by (cases p)
  obtain r g' h' where add: "addEdge (ArgName a) (ArgName b) Undefined (fst s, snd s) = (r, g', h')"
    by (cases "addEdge (ArgName a) (ArgName b) Undefined (fst s, snd s)")
  have alloc: "n < nextNode (snd s)" if "resolve_node (ArgName c) (fst s) = Some n" for c n
    using that Cons.prems by (simp add: index_ok_def)
  from index_ok_addEdge [OF Cons.prems alloc alloc add]
  have "index_ok (fst (g', h')) (snd (g', h'))"
    by simp
  from Cons.IH [OF this] add p show ?case
    by simp
qed

lemma index_ok_graph_with:
  "index_ok (fst (graph_with d names pairs)) (snd (graph_with d names pairs))"
  unfolding graph_with_def
  by (intro index_ok_add_edges index_ok_add_nodes) (simp add: index_ok_newGraph)

subsection \<open>Evaluations of the example graphs\<close>

lemma triangle_nodes: "nodes (fst triangle) = [0, 1, 2]"
  by code_simp

lemma triangle_edges: "edges (fst triangle) = [0, 1, 2]"
  by code_simp

lemma triangle_node_names: "node_names triangle = [''A'', ''B'', ''C'']"
  by code_simp

lemma triangle_edge_triples:
  "edge_triples triangle =
     [(''A'', ''B'', Undefined), (''B'', ''C'', Undefined), (''A'', ''C'', Undefined)]"
  by code_simp

section \<open>The claims\<close>




text \<open>
  C7.  For a graph whose node list holds no node twice (as in every graph the module builds)
  and a live node \<open>n\<close>: \<open>removeNode(n)\<close> returns, and afterwards \<open>nodes\<close> does not contain
  \<open>n\<close>, the name index has no entry for the name of \<open>n\<close>, and no edge left in \<open>edges\<close> has
  \<open>n\<close> as \<open>node1\<close> or \<open>node2\<close>.
\<close>

theorem removeNode_removes:
  assumes "distinct (nodes g)" and "n \<in> set (nodes g)"
  shows "\<exists>g' h'. removeNode (ArgNode n) (g, h) = Inr (g', h') \<and>
           n \<notin> set (nodes g') \<and>
           nodesMap g' (name (nodeObjs h' n)) = None \<and>
           (\<forall>e \<in> set (edges g'). node1 (edgeObjs h' e) \<noteq> n \<and> node2 (edgeObjs h' e) \<noteq> n)"
proof -
  obtain g' h' where r: "removeNode_obj n (g, h) = (g', h')"
    by (cases "removeNode_obj n (g, h)")
  from removeNode_obj_correct [OF assms(2), of h] r
  have nodes': "nodes g' = remove1 n (nodes g)"
    and map': "nodesMap g' = (nodesMap g)(name (nodeObjs h n) := None)"
    and edges': "edges g' = filter (\<lambda>e. \<not> incident h n e) (edges g)"
    and objs: "edgeObjs h' = edgeObjs h"
    and names: "\<forall>m. name (nodeObjs h' m) = name (nodeObjs h m)"
    by simp_all
  have "n \<notin> set (nodes g')"
    using assms(1) by (simp add: nodes')
  moreover have "nodesMap g' (name (nodeObjs h' n)) = None"
    using names by (simp add: map')
  moreover have "\<forall>e \<in> set (edges g'). node1 (edgeObjs h' e) \<noteq> n \<and> node2 (edgeObjs h' e) \<noteq> n"
    by (simp add: edges' objs incident_def)
  ultimately show ?thesis
    using r by simp
qed

text \<open>
  The instance: removing A (node 0) from the triangle leaves the nodes B, C and the one
  edge B-C.
\<close>

theorem removeNode_removes_witness:
  "distinct (nodes (fst triangle)) \<and> 0 \<in> set (nodes (fst triangle)) \<and>
   (\<exists>g' h'. removeNode (ArgNode 0) triangle = Inr (g', h') \<and>
      0 \<notin> set (nodes g') \<and> nodesMap g' (name (nodeObjs h' 0)) = None \<and>
      (\<forall>e \<in> set (edges g'). node1 (edgeObjs h' e) \<noteq> 0 \<and> node2 (edgeObjs h' e) \<noteq> 0) \<and>
      nodes g' = [1, 2] \<and> edges g' = [1])"
proof -
  have d: "distinct (nodes (fst triangle))" and m: "0 \<in> set (nodes (fst triangle))"
    by (simp_all add: triangle_nodes)
  have ev: "(case removeNode (ArgNode 0) triangle of
               Inl e \<Rightarrow> False
             | Inr (g', h') \<Rightarrow> nodes g' = [1, 2] \<and> edges g' = [1])"
    by code_simp
  from removeNode_removes [OF d m, of "snd triangle"] ev d m show ?thesis
    by auto
qed

text \<open>
  C9.  For a graph whose node list holds no node twice and a callback whose answer depends
  on the node alone (\<open>cb(node, index) = p(node)\<close>): \<open>filterNode\<close> returns, \<open>nodes\<close> is then
  the old list filtered by \<open>p\<close> (so \<open>[A, B, C]\<close> with \<open>p\<close> false exactly on B becomes \<open>[A, C]\<close>),
  the callback has been invoked once on each node of the old list, in order, also on a node
  that a removal moved into the current slot, and the edges left are exactly the old edges
  with no endpoint among the removed nodes (every edge incident to B is gone).
\<close>

theorem filterNode_keeps:
  assumes "\<forall>n i. cb (Some n) i = p n" and "distinct (nodes g)"
  shows "\<exists>calls g' h'. filterNode cb (g, h) = Inr (calls, g', h') \<and>
           nodes g' = filter p (nodes g) \<and>
           map fst calls = map Some (nodes g) \<and>
           edges g' = filter (\<lambda>e. \<forall>m \<in> set (nodes g). \<not> p m \<longrightarrow> \<not> incident h m e) (edges g) \<and>
           edgeObjs h' = edgeObjs h"
  using filterNode_loop_correct [OF assms refl, of 0 "[]" h]
  by (simp add: filterNode_def)

text \<open>
  The instance: the triangle with nodes \<open>[A, B, C]\<close> (0, 1, 2) and a callback that is false
  exactly on B.  The nodes left are \<open>[A, C]\<close>, the only edge left is A-C (edge 2), and the
  callback saw A at index 0, B at index 1 and then C at index 1, the slot B had left.
\<close>

theorem filterNode_keeps_witness:
  "(\<forall>n i. (\<lambda>n i. n \<noteq> Some 1) (Some n) (i::nat) = (\<lambda>n. n \<noteq> 1) n) \<and>
   distinct (nodes (fst triangle)) \<and>
   (\<exists>calls g' h'. filterNode (\<lambda>n i. n \<noteq> Some 1) triangle = Inr (calls, g', h') \<and>
      nodes g' = filter (\<lambda>n. n \<noteq> 1) (nodes (fst triangle)) \<and>
      map fst calls = map Some (nodes (fst triangle)) \<and>
      edges g' = filter (\<lambda>e. \<forall>m \<in> set (nodes (fst triangle)). \<not> m \<noteq> 1 \<longrightarrow> \<not> incident (snd triangle) m e)
                   (edges (fst triangle)) \<and>
      nodes g' = [0, 2] \<and> edges g' = [2] \<and> calls = [(Some 0, 0), (Some 1, 1), (Some 2, 1)])"
proof -
  have c: "\<forall>n i. (\<lambda>n i. n \<noteq> Some 1) (Some n) (i::nat) = (\<lambda>n. n \<noteq> 1) n"
    by simp
  have d: "distinct (nodes (fst triangle))"
    by (simp add: triangle_nodes)
  have ev: "(case filterNode (\<lambda>n i. n \<noteq> Some 1) triangle of
               Inl e \<Rightarrow> False
             | Inr (calls, g', h') \<Rightarrow>
                 nodes g' = [0, 2] \<and> edges g' = [2] \<and> calls = [(Some 0, 0), (Some 1, 1), (Some 2, 1)])"
    by code_simp
  from filterNode_keeps [OF c d, of "snd triangle"] obtain calls g' h'
    where run: "filterNode (\<lambda>n i. n \<noteq> Some 1) triangle = Inr (calls, g', h')"
      and ns: "nodes g' = filter (\<lambda>n. n \<noteq> 1) (nodes (fst triangle))"
      and cs: "map fst calls = map Some (nodes (fst triangle))"
      and es: "edges g' = filter (\<lambda>e. \<forall>m \<in> set (nodes (fst triangle)). \<not> m \<noteq> 1 \<longrightarrow> \<not> incident (snd triangle) m e)
                   (edges (fst triangle))"
    by auto
  from ev run have "nodes g' = [0, 2] \<and> edges g' = [2] \<and> calls = [(Some 0, 0), (Some 1, 1), (Some 2, 1)]"
    by simp
  with c d run ns cs es show ?thesis
    by blast
qed

text \<open>
  C5, as the code has it.  When the two keys \<open>a.name-b.name\<close> and \<open>b.name-a.name\<close> differ and
  the pair index holds neither, \<open>addEdge(a, b)\<close> followed by \<open>addEdge(b, a)\<close> creates two
  distinct edges, appended to \<open>edges\<close> in that order.  The keys differ whenever the names
  differ and contain no \<open>-\<close> (lemma \<open>edge_key_inj\<close>).  The graph may be directed or not.
\<close>

theorem addEdge_both_orders:
  assumes x: "resolve_node x g = Some a" and y: "resolve_node y g = Some b"
    and k1: "edgesMap g (edge_key (name (nodeObjs h a)) (name (nodeObjs h b))) = None"
    and k2: "edgesMap g (edge_key (name (nodeObjs h b)) (name (nodeObjs h a))) = None"
    and ne: "edge_key (name (nodeObjs h a)) (name (nodeObjs h b))
              \<noteq> edge_key (name (nodeObjs h b)) (name (nodeObjs h a))"
  shows "\<exists>e1 e2 g1 h1 g2 h2.
           addEdge x y o1 (g, h) = (Some e1, g1, h1) \<and>
           addEdge y x o2 (g1, h1) = (Some e2, g2, h2) \<and>
           e1 \<noteq> e2 \<and> edges g2 = edges g @ [e1, e2]"
proof -
  from addEdge_new [OF x y k1, of o1] obtain g1 h1
    where first: "addEdge x y o1 (g, h) = (Some (nextEdge h), g1, h1)"
      and g1: "g1 = g\<lparr>edges := edges g @ [nextEdge h],
                  edgesMap := (edgesMap g)(edge_key (name (nodeObjs h a)) (name (nodeObjs h b)) \<mapsto> nextEdge h)\<rparr>"
      and next1: "nextEdge h1 = Suc (nextEdge h)"
      and names: "\<forall>n. name (nodeObjs h1 n) = name (nodeObjs h n)"
    by blast
  from g1 have maps: "nodesMap g1 = nodesMap g" by simp
  have y1: "resolve_node y g1 = Some b" and x1: "resolve_node x g1 = Some a"
    using x y by (simp_all add: resolve_node_nodesMap [OF maps])
  have k2': "edgesMap g1 (edge_key (name (nodeObjs h1 b)) (name (nodeObjs h1 a))) = None"
    using k2 ne g1 names by auto
  from addEdge_new [OF y1 x1 k2', of o2] obtain h2
    where second: "addEdge y x o2 (g1, h1) =
        (Some (nextEdge h1),
         g1\<lparr>edges := edges g1 @ [nextEdge h1],
            edgesMap := (edgesMap g1)(edge_key (name (nodeObjs h1 b)) (name (nodeObjs h1 a)) \<mapsto> nextEdge h1)\<rparr>,
         h2)"
    by blast
  from first second next1 g1 show ?thesis
    by simp
qed

text \<open>The instance: the undirected graph with the nodes A (0) and B (1) and no edge.\<close>

theorem addEdge_both_orders_witness:
  "resolve_node (ArgNode 0) (fst (two_nodes False)) = Some 0 \<and>
   resolve_node (ArgNode 1) (fst (two_nodes False)) = Some 1 \<and>
   node_names (two_nodes False) = [''A'', ''B''] \<and>
   edgesMap (fst (two_nodes False)) (edge_key ''A'' ''B'') = None \<and>
   edgesMap (fst (two_nodes False)) (edge_key ''B'' ''A'') = None \<and>
   edge_key ''A'' ''B'' \<noteq> edge_key ''B'' ''A'' \<and>
   (\<exists>e1 e2 g1 h1 g2 h2.
      addEdge (ArgNode 0) (ArgNode 1) Undefined (two_nodes False) = (Some e1, g1, h1) \<and>
      addEdge (ArgNode 1) (ArgNode 0) Undefined (g1, h1) = (Some e2, g2, h2) \<and>
      e1 \<noteq> e2 \<and> edges g2 = edges (fst (two_nodes False)) @ [e1, e2])"
proof -
  let ?g = "fst (two_nodes False)" and ?h = "snd (two_nodes False)"
  have nn: "node_names (two_nodes False) = [''A'', ''B'']"
    by code_simp
  have k1: "edgesMap ?g (edge_key ''A'' ''B'') = None" and k2: "edgesMap ?g (edge_key ''B'' ''A'') = None"
    by code_simp+
  have ne: "edge_key ''A'' ''B'' \<noteq> edge_key ''B'' ''A''"
    by (simp add: edge_key_def)
  have x: "resolve_node (ArgNode 0) ?g = Some 0" and y: "resolve_node (ArgNode 1) ?g = Some 1"
    by simp_all
  have k1': "edgesMap ?g (edge_key (name (nodeObjs ?h 0)) (name (nodeObjs ?h 1))) = None"
    and k2': "edgesMap ?g (edge_key (name (nodeObjs ?h 1)) (name (nodeObjs ?h 0))) = None"
    by code_simp+
  have ne': "edge_key (name (nodeObjs ?h 0)) (name (nodeObjs ?h 1))
              \<noteq> edge_key (name (nodeObjs ?h 1)) (name (nodeObjs ?h 0))"
    by code_simp
  from addEdge_both_orders [OF x y k1' k2' ne', of Undefined Undefined]
  have main: "\<exists>e1 e2 g1 h1 g2 h2.
      addEdge (ArgNode 0) (ArgNode 1) Undefined (two_nodes False) = (Some e1, g1, h1) \<and>
      addEdge (ArgNode 1) (ArgNode 0) Undefined (g1, h1) = (Some e2, g2, h2) \<and>
      e1 \<noteq> e2 \<and> edges g2 = edges (fst (two_nodes False)) @ [e1, e2]"
    by (simp only: prod.collapse)
  from x y nn k1 k2 ne main show ?thesis
    by - (intro conjI; assumption)
qed

text \<open>
  C5 as stated fails: in the undirected graph with the distinct nodes \<open>x-x\<close> (0) and \<open>x\<close> (1)
  and no edge, \<open>addEdge(0, 1)\<close> creates edge 0, and \<open>addEdge(1, 0)\<close> returns edge 0 again:
  one edge, not two.
\<close>

theorem addEdge_both_orders_counterexample:
  "\<not> directed (fst (hyphen_nodes False)) \<and>
   node_names (hyphen_nodes False) = [''x-x'', ''x''] \<and>
   edges (fst (hyphen_nodes False)) = [] \<and>
   fst (addEdge (ArgNode 0) (ArgNode 1) Undefined (hyphen_nodes False)) = Some 0 \<and>
   fst (addEdge (ArgNode 1) (ArgNode 0) Undefined
          (snd (addEdge (ArgNode 0) (ArgNode 1) Undefined (hyphen_nodes False)))) = Some 0 \<and>
   edges (fst (snd (addEdge (ArgNode 1) (ArgNode 0) Undefined
          (snd (addEdge (ArgNode 0) (ArgNode 1) Undefined (hyphen_nodes False)))))) = [0]"
  by code_simp

text \<open>
  C8, as the code has it.  With \<open>n1\<close>, \<open>n2\<close> the names of the two arguments: on a directed
  graph \<open>getEdge\<close> returns what the pair index holds under the key \<open>n1-n2\<close> or nothing, and
  the edge it returns is never a reverse edge, from a node named \<open>n2\<close> to a node named \<open>n1\<close>,
  unless the two keys \<open>n1-n2\<close> and \<open>n2-n1\<close> are the same string (the pair index holding each
  edge under the key of its own endpoints, as in every graph the module builds).  On an
  undirected graph it returns the entry under \<open>n1-n2\<close> if there is one, otherwise the entry
  under the swapped key \<open>n2-n1\<close>, otherwise nothing.  After a successful \<open>addEdge(a, b)\<close> on an
  undirected graph whose pair index held nothing under the swapped key \<open>b.name-a.name\<close> (or
  whose two keys are the same), \<open>getEdge(b, a)\<close> returns that edge.
\<close>

theorem getEdge_direction:
  assumes "arg_name x h = Inr n1" and "arg_name y h = Inr n2"
  shows "(directed g \<longrightarrow> getEdge x y (g, h) = Inr (edgesMap g (edge_key n1 n2))) \<and>
         (\<not> directed g \<longrightarrow>
            getEdge x y (g, h) =
              Inr (case edgesMap g (edge_key n1 n2) of
                     Some e \<Rightarrow> Some e
                   | None \<Rightarrow> edgesMap g (edge_key n2 n1))) \<and>
         (\<not> directed g \<and> resolve_node x g = Some a \<and> resolve_node y g = Some b \<and>
          name (nodeObjs h a) = n1 \<and> name (nodeObjs h b) = n2 \<and>
          (edgesMap g (edge_key n2 n1) = None \<or> edge_key n2 n1 = edge_key n1 n2) \<and>
          addEdge x y option (g, h) = (Some e, g', h')
          \<longrightarrow> getEdge y x (g', h') = Inr (Some e)) \<and>
         (directed g \<and> index_ok g h \<and> edge_key n1 n2 \<noteq> edge_key n2 n1 \<and>
          getEdge x y (g, h) = Inr (Some r)
          \<longrightarrow> \<not> (name (nodeObjs h (node1 (edgeObjs h r))) = n2 \<and>
                 name (nodeObjs h (node2 (edgeObjs h r))) = n1))"
proof (intro conjI impI)
  assume "directed g"
  with assms show "getEdge x y (g, h) = Inr (edgesMap g (edge_key n1 n2))"
    by (simp add: ebind_def)
next
  assume "\<not> directed g"
  with assms show "getEdge x y (g, h) =
      Inr (case edgesMap g (edge_key n1 n2) of Some e \<Rightarrow> Some e | None \<Rightarrow> edgesMap g (edge_key n2 n1))"
    by (simp add: ebind_def)
next
  assume a: "\<not> directed g \<and> resolve_node x g = Some a \<and> resolve_node y g = Some b \<and>
          name (nodeObjs h a) = n1 \<and> name (nodeObjs h b) = n2 \<and>
          (edgesMap g (edge_key n2 n1) = None \<or> edge_key n2 n1 = edge_key n1 n2) \<and>
          addEdge x y option (g, h) = (Some e, g', h')"
  then have und: "\<not> directed g" and rx: "resolve_node x g = Some a" and ry: "resolve_node y g = Some b"
    and na: "name (nodeObjs h a) = n1" and nb: "name (nodeObjs h b) = n2"
    and swapped: "edgesMap g (edge_key n2 n1) = None \<or> edge_key n2 n1 = edge_key n1 n2"
    and add: "addEdge x y option (g, h) = (Some e, g', h')"
    by blast+
  from addEdge_stored [OF add rx ry] na nb
  have stored: "edgesMap g' (edge_key n1 n2) = Some e"
    by simp
  from addEdge_frame [OF add] und have und': "\<not> directed g'"
    by simp
  have names: "\<forall>n. name (nodeObjs h' n) = name (nodeObjs h n)"
    using addEdge_names [OF add] by simp
  have ax: "arg_name x h' = Inr n1" and ay: "arg_name y h' = Inr n2"
    using assms by (simp_all add: arg_name_names [OF names])
  have "edgesMap g' (edge_key n2 n1) = Some e \<or> edgesMap g' (edge_key n2 n1) = None"
  proof (cases "edge_key n2 n1 = edge_key n1 n2")
    case True
    with stored show ?thesis by simp
  next
    case False
    with swapped have none: "edgesMap g (edge_key n2 n1) = None"
      by simp
    from False na nb have "edge_key n2 n1 \<noteq> edge_key (name (nodeObjs h a)) (name (nodeObjs h b))"
      by simp
    from addEdge_other_key [OF add rx ry this] none show ?thesis
      by simp
  qed
  with stored und' ax ay show "getEdge y x (g', h') = Inr (Some e)"
    by (auto simp: ebind_def)
next
  assume d: "directed g \<and> index_ok g h \<and> edge_key n1 n2 \<noteq> edge_key n2 n1 \<and>
          getEdge x y (g, h) = Inr (Some r)"
  then have dir: "directed g" and ok: "index_ok g h"
    and differ: "edge_key n1 n2 \<noteq> edge_key n2 n1"
    and got: "getEdge x y (g, h) = Inr (Some r)"
    by blast+
  from assms dir got have stored: "edgesMap g (edge_key n1 n2) = Some r"
    by (simp add: ebind_def)
  with ok have key: "edge_key n1 n2 =
      edge_key (name (nodeObjs h (node1 (edgeObjs h r)))) (name (nodeObjs h (node2 (edgeObjs h r))))"
    by (simp add: index_ok_def)
  show "\<not> (name (nodeObjs h (node1 (edgeObjs h r))) = n2 \<and>
           name (nodeObjs h (node2 (edgeObjs h r))) = n1)"
  proof
    assume "name (nodeObjs h (node1 (edgeObjs h r))) = n2 \<and>
            name (nodeObjs h (node2 (edgeObjs h r))) = n1"
    with key have "edge_key n1 n2 = edge_key n2 n1"
      by simp
    with differ show False ..
  qed
qed

text \<open>
  The instances.  In the directed graph with the edge A-B, whose pair index is as the module
  keeps it, \<open>getEdge(A, B)\<close> is that edge, which goes from A to B, and \<open>getEdge(B, A)\<close> is
  nothing.  In the undirected graph with the nodes A, B and no edge, \<open>addEdge(A, B)\<close> creates
  edge 0 and \<open>getEdge(B, A)\<close> then returns edge 0.
\<close>

theorem getEdge_direction_witness:
  "directed (fst (pair_graph True)) \<and>
   index_ok (fst (pair_graph True)) (snd (pair_graph True)) \<and>
   arg_name (ArgNode 0) (snd (pair_graph True)) = Inr ''A'' \<and>
   arg_name (ArgNode 1) (snd (pair_graph True)) = Inr ''B'' \<and>
   edge_key ''A'' ''B'' \<noteq> edge_key ''B'' ''A'' \<and>
   getEdge (ArgNode 0) (ArgNode 1) (pair_graph True) = Inr (Some 0) \<and>
   \<not> (name (nodeObjs (snd (pair_graph True)) (node1 (edgeObjs (snd (pair_graph True)) 0))) = ''B'' \<and>
      name (nodeObjs (snd (pair_graph True)) (node2 (edgeObjs (snd (pair_graph True)) 0))) = ''A'') \<and>
   getEdge (ArgNode 1) (ArgNode 0) (pair_graph True) = Inr None \<and>
   \<not> directed (fst (two_nodes False)) \<and>
   edgesMap (fst (two_nodes False)) (edge_key ''B'' ''A'') = None \<and>
   fst (addEdge (ArgNode 0) (ArgNode 1) Undefined (two_nodes False)) = Some 0 \<and>
   getEdge (ArgNode 0) (ArgNode 1) (two_nodes False) = Inr None \<and>
   getEdge (ArgNode 1) (ArgNode 0) (snd (addEdge (ArgNode 0) (ArgNode 1) Undefined (two_nodes False)))
     = Inr (Some 0)"
proof -
  let ?D = "pair_graph True" and ?U = "two_nodes False"
  have d: "directed (fst ?D)" and u: "\<not> directed (fst ?U)"
    by code_simp+
  have inv: "index_ok (fst ?D) (snd ?D)"
    unfolding pair_graph_def by (rule index_ok_graph_with)
  have differ: "edge_key ''A'' ''B'' \<noteq> edge_key ''B'' ''A''"
    by (simp add: edge_key_def)
  have dA: "arg_name (ArgNode 0) (snd ?D) = Inr ''A''" and dB: "arg_name (ArgNode 1) (snd ?D) = Inr ''B''"
    and uA: "arg_name (ArgNode 0) (snd ?U) = Inr ''A''" and uB: "arg_name (ArgNode 1) (snd ?U) = Inr ''B''"
    by code_simp+
  have dAB: "edgesMap (fst ?D) (edge_key ''A'' ''B'') = Some 0"
    and dBA: "edgesMap (fst ?D) (edge_key ''B'' ''A'') = None"
    and uAB: "edgesMap (fst ?U) (edge_key ''A'' ''B'') = None"
    and uBA: "edgesMap (fst ?U) (edge_key ''B'' ''A'') = None"
    by code_simp+
  have nA: "name (nodeObjs (snd ?U) 0) = ''A''" and nB: "name (nodeObjs (snd ?U) 1) = ''B''"
    by code_simp+
  have e0: "fst (addEdge (ArgNode 0) (ArgNode 1) Undefined ?U) = Some 0"
    by code_simp
  obtain g' h' where add: "addEdge (ArgNode 0) (ArgNode 1) Undefined (fst ?U, snd ?U) = (Some 0, g', h')"
    using e0 by (cases "addEdge (ArgNode 0) (ArgNode 1) Undefined ?U") simp
  have fwd: "getEdge (ArgNode 0) (ArgNode 1) (fst ?D, snd ?D) = Inr (Some 0)"
    using getEdge_direction [OF dA dB, of "fst ?D"] d dAB by simp
  have forward: "\<not> (name (nodeObjs (snd ?D) (node1 (edgeObjs (snd ?D) 0))) = ''B'' \<and>
      name (nodeObjs (snd ?D) (node2 (edgeObjs (snd ?D) 0))) = ''A'')"
    using getEdge_direction [OF dA dB, where g = "fst ?D" and r = 0] d inv differ fwd by blast
  have bwd: "getEdge (ArgNode 1) (ArgNode 0) (fst ?D, snd ?D) = Inr None"
    using getEdge_direction [OF dB dA, of "fst ?D"] d dBA by simp
  have none: "getEdge (ArgNode 0) (ArgNode 1) (fst ?U, snd ?U) = Inr None"
    using getEdge_direction [OF uA uB, of "fst ?U"] u uAB uBA by simp
  have swapped: "getEdge (ArgNode 1) (ArgNode 0) (g', h') = Inr (Some 0)"
    using getEdge_direction [OF uA uB, of "fst ?U" 0 1 Undefined 0 g' h'] u uBA nA nB add
    by simp
  from add have "snd (addEdge (ArgNode 0) (ArgNode 1) Undefined ?U) = (g', h')"
    by simp
  with swapped have swapped': "getEdge (ArgNode 1) (ArgNode 0)
      (snd (addEdge (ArgNode 0) (ArgNode 1) Undefined ?U)) = Inr (Some 0)"
    by simp
  from fwd bwd none have fwd': "getEdge (ArgNode 0) (ArgNode 1) ?D = Inr (Some 0)"
    and bwd': "getEdge (ArgNode 1) (ArgNode 0) ?D = Inr None"
    and none': "getEdge (ArgNode 0) (ArgNode 1) ?U = Inr None"
    by (simp_all only: prod.collapse)
  from d inv dA dB differ fwd' forward bwd' u uBA e0 none' swapped' show ?thesis
    by - (intro conjI; assumption)
qed

text \<open>
  C8 as stated fails in two places.  In the undirected graph with the nodes A (0) and B (1):
  after \<open>addEdge(B, A)\<close> (edge 0), \<open>addEdge(A, B)\<close> succeeds with the new edge 1, but
  \<open>getEdge(B, A)\<close> returns edge 0, not that edge.  In the directed graph with the nodes \<open>x-x\<close>
  (0) and \<open>x\<close> (1): after \<open>addEdge(1, 0)\<close> (edge 0, from \<open>x\<close> to \<open>x-x\<close>), \<open>getEdge(0, 1)\<close>
  returns edge 0, which is the reverse edge: both keys are \<open>x-x-x\<close>.
\<close>

theorem getEdge_swapped_counterexample:
  "\<not> directed (fst (two_nodes False)) \<and>
   fst (addEdge (ArgNode 0) (ArgNode 1) Undefined
          (snd (addEdge (ArgNode 1) (ArgNode 0) Undefined (two_nodes False)))) = Some 1 \<and>
   getEdge (ArgNode 1) (ArgNode 0)
     (snd (addEdge (ArgNode 0) (ArgNode 1) Undefined
        (snd (addEdge (ArgNode 1) (ArgNode 0) Undefined (two_nodes False))))) = Inr (Some 0) \<and>
   directed (fst (hyphen_nodes True)) \<and>
   fst (addEdge (ArgNode 1) (ArgNode 0) Undefined (hyphen_nodes True)) = Some 0 \<and>
   getEdge (ArgNode 0) (ArgNode 1)
     (snd (addEdge (ArgNode 1) (ArgNode 0) Undefined (hyphen_nodes True))) = Inr (Some 0) \<and>
   node1 (edgeObjs (snd (snd (addEdge (ArgNode 1) (ArgNode 0) Undefined (hyphen_nodes True)))) 0) = 1 \<and>
   node2 (edgeObjs (snd (snd (addEdge (ArgNode 1) (ArgNode 0) Undefined (hyphen_nodes True)))) 0) = 0"
  by code_simp

text \<open>
  C10.  The pair index knows an edge only by the string \<open>node1.name + '-' + node2.name\<close>.
  Whenever two endpoint pairs \<open>(a, b)\<close> and \<open>(a', b')\<close> have the same key and \<open>addEdge\<close> for
  the first pair returned an edge, \<open>addEdge\<close> for the second pair returns that edge and changes
  nothing (no edge between \<open>a'\<close> and \<open>b'\<close> is created), and \<open>getEdge\<close> for either pair
  returns that edge.
\<close>

theorem edge_key_collision:
  assumes rx: "resolve_node x g = Some a" and ry: "resolve_node y g = Some b"
    and rx': "resolve_node x' g = Some a'" and ry': "resolve_node y' g = Some b'"
    and same: "edge_key (name (nodeObjs h a)) (name (nodeObjs h b))
                 = edge_key (name (nodeObjs h a')) (name (nodeObjs h b'))"
    and add: "addEdge x y o1 (g, h) = (Some e, g1, h1)"
  shows "addEdge x' y' o2 (g1, h1) = (Some e, g1, h1) \<and>
         getEdge (ArgNode a) (ArgNode b) (g1, h1) = Inr (Some e) \<and>
         getEdge (ArgNode a') (ArgNode b') (g1, h1) = Inr (Some e)"
proof -
  have names: "name (nodeObjs h1 n) = name (nodeObjs h n)" for n
    using addEdge_names [OF add] .
  from addEdge_stored [OF add rx ry]
  have stored: "edgesMap g1 (edge_key (name (nodeObjs h1 a)) (name (nodeObjs h1 b))) = Some e"
    by (simp add: names)
  with same have stored': "edgesMap g1 (edge_key (name (nodeObjs h1 a')) (name (nodeObjs h1 b'))) = Some e"
    by (simp add: names)
  from addEdge_frame [OF add] have maps: "nodesMap g1 = nodesMap g"
    by simp
  have "resolve_node x' g1 = Some a'" and "resolve_node y' g1 = Some b'"
    using rx' ry' by (simp_all add: resolve_node_nodesMap [OF maps])
  from addEdge_old [OF this stored'] have "addEdge x' y' o2 (g1, h1) = (Some e, g1, h1)" .
  moreover from stored have "getEdge (ArgNode a) (ArgNode b) (g1, h1) = Inr (Some e)"
    by (simp add: ebind_def)
  moreover from stored' have "getEdge (ArgNode a') (ArgNode b') (g1, h1) = Inr (Some e)"
    by (simp add: ebind_def)
  ultimately show ?thesis
    by simp
qed

text \<open>
  The instance: nodes named \<open>a-b\<close> (0), \<open>c\<close> (1), \<open>a\<close> (2), \<open>b-c\<close> (3).  The pairs (0, 1) and
  (2, 3) are different and share the key \<open>a-b-c\<close>.  \<open>addEdge(0, 1)\<close> creates edge 0;
  \<open>addEdge(2, 3)\<close> returns edge 0, whose endpoints are 0 and 1, and \<open>edges\<close> stays \<open>[0]\<close>.
\<close>

theorem edge_key_collision_witness:
  "node_names four_nodes = [''a-b'', ''c'', ''a'', ''b-c''] \<and>
   edge_key ''a-b'' ''c'' = edge_key ''a'' ''b-c'' \<and>
   fst (addEdge (ArgNode 0) (ArgNode 1) Undefined four_nodes) = Some 0 \<and>
   (\<exists>g1 h1. addEdge (ArgNode 0) (ArgNode 1) Undefined four_nodes = (Some 0, g1, h1) \<and>
      addEdge (ArgNode 2) (ArgNode 3) Undefined (g1, h1) = (Some 0, g1, h1) \<and>
      getEdge (ArgNode 0) (ArgNode 1) (g1, h1) = Inr (Some 0) \<and>
      getEdge (ArgNode 2) (ArgNode 3) (g1, h1) = Inr (Some 0) \<and>
      edges g1 = [0] \<and> node1 (edgeObjs h1 0) = 0 \<and> node2 (edgeObjs h1 0) = 1)"
proof -
  let ?g = "fst four_nodes" and ?h = "snd four_nodes"
  have nn: "node_names four_nodes = [''a-b'', ''c'', ''a'', ''b-c'']"
    by code_simp
  have keys: "edge_key ''a-b'' ''c'' = edge_key ''a'' ''b-c''"
    by (simp add: edge_key_def)
  have same: "edge_key (name (nodeObjs ?h 0)) (name (nodeObjs ?h 1))
                = edge_key (name (nodeObjs ?h 2)) (name (nodeObjs ?h 3))"
    by code_simp
  have e0: "fst (addEdge (ArgNode 0) (ArgNode 1) Undefined four_nodes) = Some 0"
    by code_simp
  have ev: "(case addEdge (ArgNode 0) (ArgNode 1) Undefined four_nodes of
               (r, g1, h1) \<Rightarrow> edges g1 = [0] \<and> node1 (edgeObjs h1 0) = 0 \<and> node2 (edgeObjs h1 0) = 1)"
    by code_simp
  obtain g1 h1 where add: "addEdge (ArgNode 0) (ArgNode 1) Undefined (?g, ?h) = (Some 0, g1, h1)"
    using e0 by (cases "addEdge (ArgNode 0) (ArgNode 1) Undefined four_nodes") simp
  have r0: "resolve_node (ArgNode 0) ?g = Some 0" and r1: "resolve_node (ArgNode 1) ?g = Some 1"
    and r2: "resolve_node (ArgNode 2) ?g = Some 2" and r3: "resolve_node (ArgNode 3) ?g = Some 3"
    by simp_all
  from add have add': "addEdge (ArgNode 0) (ArgNode 1) Undefined four_nodes = (Some 0, g1, h1)"
    by (simp only: prod.collapse)
  from ev add' have rest: "edges g1 = [0] \<and> node1 (edgeObjs h1 0) = 0 \<and> node2 (edgeObjs h1 0) = 1"
    by simp
  from edge_key_collision [OF r0 r1 r2 r3 same add, of Undefined] add' rest
  have "\<exists>g1 h1. addEdge (ArgNode 0) (ArgNode 1) Undefined four_nodes = (Some 0, g1, h1) \<and>
      addEdge (ArgNode 2) (ArgNode 3) Undefined (g1, h1) = (Some 0, g1, h1) \<and>
      getEdge (ArgNode 0) (ArgNode 1) (g1, h1) = Inr (Some 0) \<and>
      getEdge (ArgNode 2) (ArgNode 3) (g1, h1) = Inr (Some 0) \<and>
      edges g1 = [0] \<and> node1 (edgeObjs h1 0) = 0 \<and> node2 (edgeObjs h1 0) = 1"
    by blast
  with nn keys e0 show ?thesis
    by - (intro conjI; assumption)
qed

text \<open>
  C4, as the code has it.  \<open>fromMatrix\<close> returns nothing, and leaves the heap as it was, when
  the matrix is missing or empty, when its first row's length differs from the row count, or
  when \<open>nodesData.length\<close> differs from the row count.  (Only the first row is measured,
  lines 454-456.)
\<close>

theorem fromMatrix_rejects:
  "fromMatrix nodesData None d h = Inr (None, h) \<and>
   fromMatrix nodesData (Some []) d h = Inr (None, h) \<and>
   (length row0 \<noteq> length (row0 # rows) \<or> length nodesData \<noteq> length (row0 # rows)
      \<longrightarrow> fromMatrix nodesData (Some (row0 # rows)) d h = Inr (None, h))"
  by (simp add: fromMatrix_def)

text \<open>
  The instances: a matrix of one row and two columns, and a 1 x 1 matrix with two node records.
\<close>

theorem fromMatrix_rejects_witness:
  "length [1, 2 :: int] \<noteq> length [[1, 2 :: int]] \<and>
   fromMatrix [Obj 0] (Some [[1, 2]]) False (heap_of [named ''A'']) = Inr (None, heap_of [named ''A'']) \<and>
   length [Obj 0, Obj 1] \<noteq> length [[1 :: int]] \<and>
   fromMatrix [Obj 0, Obj 1] (Some [[1]]) True (heap_of [named ''A'', named ''B''])
     = Inr (None, heap_of [named ''A'', named ''B''])"
proof -
  have a: "length [1, 2 :: int] \<noteq> length ([1, 2 :: int] # [])"
    by simp
  have b: "length [Obj 0, Obj 1] \<noteq> length ([1 :: int] # [])"
    by simp
  from fromMatrix_rejects [of "[Obj 0]" False "heap_of [named ''A'']" "[1, 2]" "[]"] a
  have one: "fromMatrix [Obj 0] (Some [[1, 2]]) False (heap_of [named ''A'']) = Inr (None, heap_of [named ''A''])"
    by blast
  from fromMatrix_rejects [of "[Obj 0, Obj 1]" True "heap_of [named ''A'', named ''B'']" "[1]" "[]"] b
  have two: "fromMatrix [Obj 0, Obj 1] (Some [[1]]) True (heap_of [named ''A'', named ''B''])
     = Inr (None, heap_of [named ''A'', named ''B''])"
    by blast
  from a b one two show ?thesis
    by - (intro conjI; assumption)
qed

text \<open>
  C4 as stated fails: the matrix \<open>[[0, 0], [0]]\<close> is not square, its second row being shorter
  than the row count, but its first row has the length 2 of the row count and of
  \<open>nodesData\<close>.  The checks pass, the graph is begun, and the call ends in the TypeError of
  line 469 instead of returning nothing.
\<close>

theorem fromMatrix_ragged_counterexample:
  "length ([[0, 0], [0 :: int]] ! 1) \<noteq> length [[0, 0], [0 :: int]] \<and>
   fromMatrix [Obj 0, Obj 1] (Some [[0, 0], [0]]) False (heap_of [named ''A'', named ''B''])
     = Inl TypeError \<and>
   fromMatrix [Obj 0, Obj 1] (Some [[0, 0], [0]]) False (heap_of [named ''A'', named ''B''])
     \<noteq> Inr (None, heap_of [named ''A'', named ''B''])"
  by (simp add: fromMatrix_def fromMatrix_node_def nth_opt_def heap_of_def named_def empty_obj_def
        newGraph_def ebind_def Node_init_def option_or_null_def nodesMap_get_def
        object_prototype_keys_def upt_rec)

text \<open>
  C1, evaluated on the undirected graph with the nodes A, B and the edge A-B.  The claim
  asks of the clone the node names \<open>[A, B]\<close> and the edge triple (A, B, payload).  \<open>clone\<close>
  passes each name as the \<open>option\<close> of \<open>addNode\<close>; a string has no property \<open>name\<close>, so every
  node is looked up under the key "undefined": the clone has one node, with the empty name,
  and no edge.
\<close>

theorem clone_loses_nodes:
  "node_names (pair_graph False) = [''A'', ''B''] \<and>
   edge_triples (pair_graph False) = [(''A'', ''B'', Undefined)] \<and>
   (\<exists>g' h'. clone (fst (pair_graph False)) (snd (pair_graph False)) = Inr (g', h') \<and>
      node_names (g', h') = [[]] \<and> edge_triples (g', h') = [])"
proof -
  have src: "node_names (pair_graph False) = [''A'', ''B'']"
    "edge_triples (pair_graph False) = [(''A'', ''B'', Undefined)]"
    by code_simp+
  have "case clone (fst (pair_graph False)) (snd (pair_graph False)) of
          Inl e \<Rightarrow> False
        | Inr s \<Rightarrow> node_names s = [[]] \<and> edge_triples s = []"
    by code_simp
  then have "\<exists>g' h'. clone (fst (pair_graph False)) (snd (pair_graph False)) = Inr (g', h') \<and>
      node_names (g', h') = [[]] \<and> edge_triples (g', h') = []"
    by (cases "clone (fst (pair_graph False)) (snd (pair_graph False))") auto
  with src show ?thesis
    by - (intro conjI; assumption)
qed

text \<open>
  C2, evaluated on the triangle (A, B, C are the nodes 0, 1, 2) with a callback that always
  answers false, from A, direction \<open>none\<close>.  The claim asks for three invocations.  The start
  node is never marked visited, so when B is taken from the queue its edge A-B leads to the
  unmarked A: the callback is invoked a fourth time, on A with predecessor B.
\<close>

theorem breadthFirstTraverse_triangle:
  "node_names triangle = [''A'', ''B'', ''C''] \<and>
   map_option fst (breadthFirstTraverse (\<lambda>n p. False) (ArgName ''A'') ''none'' triangle)
     = Some [(0, None), (1, Some 0), (2, Some 0), (0, Some 1)]"
  by code_simp

text \<open>
  C3, evaluated on the claim's input.  The claim asks for a graph with the nodes A and B, one
  edge of weight 2 and both values 4.  \<open>fromMatrix\<close> passes the name \<open>'A'\<close> as the \<open>option\<close> of
  \<open>addNode\<close>, so the node's \<open>$option\<close> is that string, and \<open>node.$option.value = 0\<close>
  (line 469) throws a TypeError in strict mode: no graph is returned.
\<close>

theorem fromMatrix_example_throws:
  "fromMatrix [Obj 0, Obj 1] (Some [[0, 2], [2, 0]]) False (heap_of [named ''A'', named ''B''])
     = Inl TypeError"
  by (simp add: fromMatrix_def fromMatrix_node_def nth_opt_def heap_of_def named_def empty_obj_def
        newGraph_def ebind_def Node_init_def option_or_null_def nodesMap_get_def
        object_prototype_keys_def upt_rec)

end
